theory Spec2Isabelle
  imports Main "HOL-Library.Code_Target_Nat"
begin

section \<open>Strings\<close>

text \<open>
  The program is a Python script (\<^verbatim>\<open>app.py\<close>) that reads PubMed XML and produces rows
  of (title, author, email). A Python \<^verbatim>\<open>str\<close> is a sequence of Unicode code points and
  is modelled as a list of natural numbers; \<open>ustr\<close> reads a literal of the source.
\<close>

type_synonym ustring = "nat list"

definition ord :: "char \<Rightarrow> nat" where
  "ord c = of_char c"

definition ustr :: "string \<Rightarrow> ustring" where
  "ustr cs = map ord cs"

fun str_in :: "ustring \<Rightarrow> ustring \<Rightarrow> bool" where
  \<comment> \<open>\<^verbatim>\<open>sub in s\<close>: \<open>sub\<close> occurs in \<open>s\<close> as a contiguous substring.\<close>
  "str_in sub [] = (sub = [])"
| "str_in sub (c # cs) = (take (length sub) (c # cs) = sub \<or> str_in sub cs)"

definition slice :: "ustring \<Rightarrow> nat \<Rightarrow> nat \<Rightarrow> ustring" where
  \<comment> \<open>\<^verbatim>\<open>s[i:j]\<close> for \<open>0 \<le> i\<close>, \<open>0 \<le> j\<close>\<close>
  "slice s i j = take (j - i) (drop i s)"

definition is_upper :: "nat \<Rightarrow> bool" where
  \<comment> \<open>\<^verbatim>\<open>A-Z\<close>\<close>
  "is_upper c = (65 \<le> c \<and> c \<le> 90)"

definition is_lower :: "nat \<Rightarrow> bool" where
  \<comment> \<open>\<^verbatim>\<open>a-z\<close>\<close>
  "is_lower c = (97 \<le> c \<and> c \<le> 122)"

definition is_digit :: "nat \<Rightarrow> bool" where
  \<comment> \<open>\<^verbatim>\<open>0-9\<close>\<close>
  "is_digit c = (48 \<le> c \<and> c \<le> 57)"


section \<open>The character database\<close>

text \<open>
  \<^verbatim>\<open>str.strip\<close>, \<^verbatim>\<open>str.lower\<close> and the \<^verbatim>\<open>\b\<close> of a \<^verbatim>\<open>str\<close> pattern consult the
  Unicode character database of the interpreter. The tables below are those of Unicode
  14.0.0, the database of CPython 3.11, as inclusive ranges of code points: the
  whitespace characters, the alphanumeric characters above ASCII, the cased and the
  case-ignorable characters, and the simple lower-case mappings above ASCII. A run
  \<open>(lo, hi, step, target)\<close> of the last table maps every \<open>step\<close>-th code point from
  \<open>lo\<close> to \<open>hi\<close> to the code point at the same distance from \<open>target\<close>.
\<close>

definition in_ranges :: "nat \<Rightarrow> (nat \<times> nat) list \<Rightarrow> bool" where
  "in_ranges c rs = list_ex (\<lambda>(lo, hi). lo \<le> c \<and> c \<le> hi) rs"

definition space_ranges :: "(nat \<times> nat) list" where
  "space_ranges =
      [(9, 13), (28, 32), (133, 133), (160, 160), (5760, 5760), (8192, 8202), (8232, 8233),
       (8239, 8239), (8287, 8287), (12288, 12288)]"

definition alnum_ranges :: "(nat \<times> nat) list" where
  "alnum_ranges =
      [(170, 170), (178, 179), (181, 181), (185, 186), (188, 190), (192, 214), (216, 246),
       (248, 705), (710, 721), (736, 740), (748, 748), (750, 750), (880, 884), (886, 887),
       (890, 893), (895, 895), (902, 902), (904, 906), (908, 908), (910, 929), (931, 1013),
       (1015, 1153), (1162, 1327), (1329, 1366), (1369, 1369), (1376, 1416), (1488, 1514),
       (1519, 1522), (1568, 1610), (1632, 1641), (1646, 1647), (1649, 1747), (1749, 1749),
       (1765, 1766), (1774, 1788), (1791, 1791), (1808, 1808), (1810, 1839), (1869, 1957),
       (1969, 1969), (1984, 2026), (2036, 2037), (2042, 2042), (2048, 2069), (2074, 2074),
       (2084, 2084), (2088, 2088), (2112, 2136), (2144, 2154), (2160, 2183), (2185, 2190),
       (2208, 2249), (2308, 2361), (2365, 2365), (2384, 2384), (2392, 2401), (2406, 2415),
       (2417, 2432), (2437, 2444), (2447, 2448), (2451, 2472), (2474, 2480), (2482, 2482),
       (2486, 2489), (2493, 2493), (2510, 2510), (2524, 2525), (2527, 2529), (2534, 2545),
       (2548, 2553), (2556, 2556), (2565, 2570), (2575, 2576), (2579, 2600), (2602, 2608),
       (2610, 2611), (2613, 2614), (2616, 2617), (2649, 2652), (2654, 2654), (2662, 2671),
       (2674, 2676), (2693, 2701), (2703, 2705), (2707, 2728), (2730, 2736), (2738, 2739),
       (2741, 2745), (2749, 2749), (2768, 2768), (2784, 2785), (2790, 2799), (2809, 2809),
       (2821, 2828), (2831, 2832), (2835, 2856), (2858, 2864), (2866, 2867), (2869, 2873),
       (2877, 2877), (2908, 2909), (2911, 2913), (2918, 2927), (2929, 2935), (2947, 2947),
       (2949, 2954), (2958, 2960), (2962, 2965), (2969, 2970), (2972, 2972), (2974, 2975),
       (2979, 2980), (2984, 2986), (2990, 3001), (3024, 3024), (3046, 3058), (3077, 3084),
       (3086, 3088), (3090, 3112), (3114, 3129), (3133, 3133), (3160, 3162), (3165, 3165),
       (3168, 3169), (3174, 3183), (3192, 3198), (3200, 3200), (3205, 3212), (3214, 3216),
       (3218, 3240), (3242, 3251), (3253, 3257), (3261, 3261), (3293, 3294), (3296, 3297),
       (3302, 3311), (3313, 3314), (3332, 3340), (3342, 3344), (3346, 3386), (3389, 3389),
       (3406, 3406), (3412, 3414), (3416, 3425), (3430, 3448), (3450, 3455), (3461, 3478),
       (3482, 3505), (3507, 3515), (3517, 3517), (3520, 3526), (3558, 3567), (3585, 3632),
       (3634, 3635), (3648, 3654), (3664, 3673), (3713, 3714), (3716, 3716), (3718, 3722),
       (3724, 3747), (3749, 3749), (3751, 3760), (3762, 3763), (3773, 3773), (3776, 3780),
       (3782, 3782), (3792, 3801), (3804, 3807), (3840, 3840), (3872, 3891), (3904, 3911),
       (3913, 3948), (3976, 3980), (4096, 4138), (4159, 4169), (4176, 4181), (4186, 4189),
       (4193, 4193), (4197, 4198), (4206, 4208), (4213, 4225), (4238, 4238), (4240, 4249),
       (4256, 4293), (4295, 4295), (4301, 4301), (4304, 4346), (4348, 4680), (4682, 4685),
       (4688, 4694), (4696, 4696), (4698, 4701), (4704, 4744), (4746, 4749), (4752, 4784),
       (4786, 4789), (4792, 4798), (4800, 4800), (4802, 4805), (4808, 4822), (4824, 4880),
       (4882, 4885), (4888, 4954), (4969, 4988), (4992, 5007), (5024, 5109), (5112, 5117),
       (5121, 5740), (5743, 5759), (5761, 5786), (5792, 5866), (5870, 5880), (5888, 5905),
       (5919, 5937), (5952, 5969), (5984, 5996), (5998, 6000), (6016, 6067), (6103, 6103),
       (6108, 6108), (6112, 6121), (6128, 6137), (6160, 6169), (6176, 6264), (6272, 6276),
       (6279, 6312), (6314, 6314), (6320, 6389), (6400, 6430), (6470, 6509), (6512, 6516),
       (6528, 6571), (6576, 6601), (6608, 6618), (6656, 6678), (6688, 6740), (6784, 6793),
       (6800, 6809), (6823, 6823), (6917, 6963), (6981, 6988), (6992, 7001), (7043, 7072),
       (7086, 7141), (7168, 7203), (7232, 7241), (7245, 7293), (7296, 7304), (7312, 7354),
       (7357, 7359), (7401, 7404), (7406, 7411), (7413, 7414), (7418, 7418), (7424, 7615),
       (7680, 7957), (7960, 7965), (7968, 8005), (8008, 8013), (8016, 8023), (8025, 8025),
       (8027, 8027), (8029, 8029), (8031, 8061), (8064, 8116), (8118, 8124), (8126, 8126),
       (8130, 8132), (8134, 8140), (8144, 8147), (8150, 8155), (8160, 8172), (8178, 8180),
       (8182, 8188), (8304, 8305), (8308, 8313), (8319, 8329), (8336, 8348), (8450, 8450),
       (8455, 8455), (8458, 8467), (8469, 8469), (8473, 8477), (8484, 8484), (8486, 8486),
       (8488, 8488), (8490, 8493), (8495, 8505), (8508, 8511), (8517, 8521), (8526, 8526),
       (8528, 8585), (9312, 9371), (9450, 9471), (10102, 10131), (11264, 11492),
       (11499, 11502), (11506, 11507), (11517, 11517), (11520, 11557), (11559, 11559),
       (11565, 11565), (11568, 11623), (11631, 11631), (11648, 11670), (11680, 11686),
       (11688, 11694), (11696, 11702), (11704, 11710), (11712, 11718), (11720, 11726),
       (11728, 11734), (11736, 11742), (11823, 11823), (12293, 12295), (12321, 12329),
       (12337, 12341), (12344, 12348), (12353, 12438), (12445, 12447), (12449, 12538),
       (12540, 12543), (12549, 12591), (12593, 12686), (12690, 12693), (12704, 12735),
       (12784, 12799), (12832, 12841), (12872, 12879), (12881, 12895), (12928, 12937),
       (12977, 12991), (13312, 19903), (19968, 42124), (42192, 42237), (42240, 42508),
       (42512, 42539), (42560, 42606), (42623, 42653), (42656, 42735), (42775, 42783),
       (42786, 42888), (42891, 42954), (42960, 42961), (42963, 42963), (42965, 42969),
       (42994, 43009), (43011, 43013), (43015, 43018), (43020, 43042), (43056, 43061),
       (43072, 43123), (43138, 43187), (43216, 43225), (43250, 43255), (43259, 43259),
       (43261, 43262), (43264, 43301), (43312, 43334), (43360, 43388), (43396, 43442),
       (43471, 43481), (43488, 43492), (43494, 43518), (43520, 43560), (43584, 43586),
       (43588, 43595), (43600, 43609), (43616, 43638), (43642, 43642), (43646, 43695),
       (43697, 43697), (43701, 43702), (43705, 43709), (43712, 43712), (43714, 43714),
       (43739, 43741), (43744, 43754), (43762, 43764), (43777, 43782), (43785, 43790),
       (43793, 43798), (43808, 43814), (43816, 43822), (43824, 43866), (43868, 43881),
       (43888, 44002), (44016, 44025), (44032, 55203), (55216, 55238), (55243, 55291),
       (63744, 64109), (64112, 64217), (64256, 64262), (64275, 64279), (64285, 64285),
       (64287, 64296), (64298, 64310), (64312, 64316), (64318, 64318), (64320, 64321),
       (64323, 64324), (64326, 64433), (64467, 64829), (64848, 64911), (64914, 64967),
       (65008, 65019), (65136, 65140), (65142, 65276), (65296, 65305), (65313, 65338),
       (65345, 65370), (65382, 65470), (65474, 65479), (65482, 65487), (65490, 65495),
       (65498, 65500), (65536, 65547), (65549, 65574), (65576, 65594), (65596, 65597),
       (65599, 65613), (65616, 65629), (65664, 65786), (65799, 65843), (65856, 65912),
       (65930, 65931), (66176, 66204), (66208, 66256), (66273, 66299), (66304, 66339),
       (66349, 66378), (66384, 66421), (66432, 66461), (66464, 66499), (66504, 66511),
       (66513, 66517), (66560, 66717), (66720, 66729), (66736, 66771), (66776, 66811),
       (66816, 66855), (66864, 66915), (66928, 66938), (66940, 66954), (66956, 66962),
       (66964, 66965), (66967, 66977), (66979, 66993), (66995, 67001), (67003, 67004),
       (67072, 67382), (67392, 67413), (67424, 67431), (67456, 67461), (67463, 67504),
       (67506, 67514), (67584, 67589), (67592, 67592), (67594, 67637), (67639, 67640),
       (67644, 67644), (67647, 67669), (67672, 67702), (67705, 67742), (67751, 67759),
       (67808, 67826), (67828, 67829), (67835, 67867), (67872, 67897), (67968, 68023),
       (68028, 68047), (68050, 68096), (68112, 68115), (68117, 68119), (68121, 68149),
       (68160, 68168), (68192, 68222), (68224, 68255), (68288, 68295), (68297, 68324),
       (68331, 68335), (68352, 68405), (68416, 68437), (68440, 68466), (68472, 68497),
       (68521, 68527), (68608, 68680), (68736, 68786), (68800, 68850), (68858, 68899),
       (68912, 68921), (69216, 69246), (69248, 69289), (69296, 69297), (69376, 69415),
       (69424, 69445), (69457, 69460), (69488, 69505), (69552, 69579), (69600, 69622),
       (69635, 69687), (69714, 69743), (69745, 69746), (69749, 69749), (69763, 69807),
       (69840, 69864), (69872, 69881), (69891, 69926), (69942, 69951), (69956, 69956),
       (69959, 69959), (69968, 70002), (70006, 70006), (70019, 70066), (70081, 70084),
       (70096, 70106), (70108, 70108), (70113, 70132), (70144, 70161), (70163, 70187),
       (70272, 70278), (70280, 70280), (70282, 70285), (70287, 70301), (70303, 70312),
       (70320, 70366), (70384, 70393), (70405, 70412), (70415, 70416), (70419, 70440),
       (70442, 70448), (70450, 70451), (70453, 70457), (70461, 70461), (70480, 70480),
       (70493, 70497), (70656, 70708), (70727, 70730), (70736, 70745), (70751, 70753),
       (70784, 70831), (70852, 70853), (70855, 70855), (70864, 70873), (71040, 71086),
       (71128, 71131), (71168, 71215), (71236, 71236), (71248, 71257), (71296, 71338),
       (71352, 71352), (71360, 71369), (71424, 71450), (71472, 71483), (71488, 71494),
       (71680, 71723), (71840, 71922), (71935, 71942), (71945, 71945), (71948, 71955),
       (71957, 71958), (71960, 71983), (71999, 71999), (72001, 72001), (72016, 72025),
       (72096, 72103), (72106, 72144), (72161, 72161), (72163, 72163), (72192, 72192),
       (72203, 72242), (72250, 72250), (72272, 72272), (72284, 72329), (72349, 72349),
       (72368, 72440), (72704, 72712), (72714, 72750), (72768, 72768), (72784, 72812),
       (72818, 72847), (72960, 72966), (72968, 72969), (72971, 73008), (73030, 73030),
       (73040, 73049), (73056, 73061), (73063, 73064), (73066, 73097), (73112, 73112),
       (73120, 73129), (73440, 73458), (73648, 73648), (73664, 73684), (73728, 74649),
       (74752, 74862), (74880, 75075), (77712, 77808), (77824, 78894), (82944, 83526),
       (92160, 92728), (92736, 92766), (92768, 92777), (92784, 92862), (92864, 92873),
       (92880, 92909), (92928, 92975), (92992, 92995), (93008, 93017), (93019, 93025),
       (93027, 93047), (93053, 93071), (93760, 93846), (93952, 94026), (94032, 94032),
       (94099, 94111), (94176, 94177), (94179, 94179), (94208, 100343), (100352, 101589),
       (101632, 101640), (110576, 110579), (110581, 110587), (110589, 110590),
       (110592, 110882), (110928, 110930), (110948, 110951), (110960, 111355),
       (113664, 113770), (113776, 113788), (113792, 113800), (113808, 113817),
       (119520, 119539), (119648, 119672), (119808, 119892), (119894, 119964),
       (119966, 119967), (119970, 119970), (119973, 119974), (119977, 119980),
       (119982, 119993), (119995, 119995), (119997, 120003), (120005, 120069),
       (120071, 120074), (120077, 120084), (120086, 120092), (120094, 120121),
       (120123, 120126), (120128, 120132), (120134, 120134), (120138, 120144),
       (120146, 120485), (120488, 120512), (120514, 120538), (120540, 120570),
       (120572, 120596), (120598, 120628), (120630, 120654), (120656, 120686),
       (120688, 120712), (120714, 120744), (120746, 120770), (120772, 120779),
       (120782, 120831), (122624, 122654), (123136, 123180), (123191, 123197),
       (123200, 123209), (123214, 123214), (123536, 123565), (123584, 123627),
       (123632, 123641), (124896, 124902), (124904, 124907), (124909, 124910),
       (124912, 124926), (124928, 125124), (125127, 125135), (125184, 125251),
       (125259, 125259), (125264, 125273), (126065, 126123), (126125, 126127),
       (126129, 126132), (126209, 126253), (126255, 126269), (126464, 126467),
       (126469, 126495), (126497, 126498), (126500, 126500), (126503, 126503),
       (126505, 126514), (126516, 126519), (126521, 126521), (126523, 126523),
       (126530, 126530), (126535, 126535), (126537, 126537), (126539, 126539),
       (126541, 126543), (126545, 126546), (126548, 126548), (126551, 126551),
       (126553, 126553), (126555, 126555), (126557, 126557), (126559, 126559),
       (126561, 126562), (126564, 126564), (126567, 126570), (126572, 126578),
       (126580, 126583), (126585, 126588), (126590, 126590), (126592, 126601),
       (126603, 126619), (126625, 126627), (126629, 126633), (126635, 126651),
       (127232, 127244), (130032, 130041), (131072, 173791), (173824, 177976),
       (177984, 178205), (178208, 183969), (183984, 191456), (194560, 195101), (196608, 201546)]"

definition cased_ranges :: "(nat \<times> nat) list" where
  "cased_ranges =
      [(65, 90), (97, 122), (170, 170), (181, 181), (186, 186), (192, 214), (216, 246),
       (248, 442), (444, 447), (452, 659), (661, 696), (704, 705), (736, 740), (837, 837),
       (880, 883), (886, 887), (890, 893), (895, 895), (902, 902), (904, 906), (908, 908),
       (910, 929), (931, 1013), (1015, 1153), (1162, 1327), (1329, 1366), (1376, 1416),
       (4256, 4293), (4295, 4295), (4301, 4301), (4304, 4346), (4349, 4351), (5024, 5109),
       (5112, 5117), (7296, 7304), (7312, 7354), (7357, 7359), (7424, 7615), (7680, 7957),
       (7960, 7965), (7968, 8005), (8008, 8013), (8016, 8023), (8025, 8025), (8027, 8027),
       (8029, 8029), (8031, 8061), (8064, 8116), (8118, 8124), (8126, 8126), (8130, 8132),
       (8134, 8140), (8144, 8147), (8150, 8155), (8160, 8172), (8178, 8180), (8182, 8188),
       (8305, 8305), (8319, 8319), (8336, 8348), (8450, 8450), (8455, 8455), (8458, 8467),
       (8469, 8469), (8473, 8477), (8484, 8484), (8486, 8486), (8488, 8488), (8490, 8493),
       (8495, 8500), (8505, 8505), (8508, 8511), (8517, 8521), (8526, 8526), (8544, 8575),
       (8579, 8580), (9398, 9449), (11264, 11492), (11499, 11502), (11506, 11507),
       (11520, 11557), (11559, 11559), (11565, 11565), (42560, 42605), (42624, 42653),
       (42786, 42887), (42891, 42894), (42896, 42954), (42960, 42961), (42963, 42963),
       (42965, 42969), (42997, 42998), (43000, 43002), (43824, 43866), (43868, 43880),
       (43888, 43967), (64256, 64262), (64275, 64279), (65313, 65338), (65345, 65370),
       (66560, 66639), (66736, 66771), (66776, 66811), (66928, 66938), (66940, 66954),
       (66956, 66962), (66964, 66965), (66967, 66977), (66979, 66993), (66995, 67001),
       (67003, 67004), (67456, 67456), (67459, 67461), (67463, 67504), (67506, 67514),
       (68736, 68786), (68800, 68850), (71840, 71903), (93760, 93823), (119808, 119892),
       (119894, 119964), (119966, 119967), (119970, 119970), (119973, 119974),
       (119977, 119980), (119982, 119993), (119995, 119995), (119997, 120003),
       (120005, 120069), (120071, 120074), (120077, 120084), (120086, 120092),
       (120094, 120121), (120123, 120126), (120128, 120132), (120134, 120134),
       (120138, 120144), (120146, 120485), (120488, 120512), (120514, 120538),
       (120540, 120570), (120572, 120596), (120598, 120628), (120630, 120654),
       (120656, 120686), (120688, 120712), (120714, 120744), (120746, 120770),
       (120772, 120779), (122624, 122633), (122635, 122654), (125184, 125251),
       (127280, 127305), (127312, 127337), (127344, 127369)]"

definition case_ignorable_ranges :: "(nat \<times> nat) list" where
  "case_ignorable_ranges =
      [(39, 39), (46, 46), (58, 58), (94, 94), (96, 96), (168, 168), (173, 173), (175, 175),
       (180, 180), (183, 184), (688, 879), (884, 885), (890, 890), (900, 901), (903, 903),
       (1155, 1161), (1369, 1369), (1375, 1375), (1425, 1469), (1471, 1471), (1473, 1474),
       (1476, 1477), (1479, 1479), (1524, 1524), (1536, 1541), (1552, 1562), (1564, 1564),
       (1600, 1600), (1611, 1631), (1648, 1648), (1750, 1757), (1759, 1768), (1770, 1773),
       (1807, 1807), (1809, 1809), (1840, 1866), (1958, 1968), (2027, 2037), (2042, 2042),
       (2045, 2045), (2070, 2093), (2137, 2139), (2184, 2184), (2192, 2193), (2200, 2207),
       (2249, 2306), (2362, 2362), (2364, 2364), (2369, 2376), (2381, 2381), (2385, 2391),
       (2402, 2403), (2417, 2417), (2433, 2433), (2492, 2492), (2497, 2500), (2509, 2509),
       (2530, 2531), (2558, 2558), (2561, 2562), (2620, 2620), (2625, 2626), (2631, 2632),
       (2635, 2637), (2641, 2641), (2672, 2673), (2677, 2677), (2689, 2690), (2748, 2748),
       (2753, 2757), (2759, 2760), (2765, 2765), (2786, 2787), (2810, 2815), (2817, 2817),
       (2876, 2876), (2879, 2879), (2881, 2884), (2893, 2893), (2901, 2902), (2914, 2915),
       (2946, 2946), (3008, 3008), (3021, 3021), (3072, 3072), (3076, 3076), (3132, 3132),
       (3134, 3136), (3142, 3144), (3146, 3149), (3157, 3158), (3170, 3171), (3201, 3201),
       (3260, 3260), (3263, 3263), (3270, 3270), (3276, 3277), (3298, 3299), (3328, 3329),
       (3387, 3388), (3393, 3396), (3405, 3405), (3426, 3427), (3457, 3457), (3530, 3530),
       (3538, 3540), (3542, 3542), (3633, 3633), (3636, 3642), (3654, 3662), (3761, 3761),
       (3764, 3772), (3782, 3782), (3784, 3789), (3864, 3865), (3893, 3893), (3895, 3895),
       (3897, 3897), (3953, 3966), (3968, 3972), (3974, 3975), (3981, 3991), (3993, 4028),
       (4038, 4038), (4141, 4144), (4146, 4151), (4153, 4154), (4157, 4158), (4184, 4185),
       (4190, 4192), (4209, 4212), (4226, 4226), (4229, 4230), (4237, 4237), (4253, 4253),
       (4348, 4348), (4957, 4959), (5906, 5908), (5938, 5939), (5970, 5971), (6002, 6003),
       (6068, 6069), (6071, 6077), (6086, 6086), (6089, 6099), (6103, 6103), (6109, 6109),
       (6155, 6159), (6211, 6211), (6277, 6278), (6313, 6313), (6432, 6434), (6439, 6440),
       (6450, 6450), (6457, 6459), (6679, 6680), (6683, 6683), (6742, 6742), (6744, 6750),
       (6752, 6752), (6754, 6754), (6757, 6764), (6771, 6780), (6783, 6783), (6823, 6823),
       (6832, 6862), (6912, 6915), (6964, 6964), (6966, 6970), (6972, 6972), (6978, 6978),
       (7019, 7027), (7040, 7041), (7074, 7077), (7080, 7081), (7083, 7085), (7142, 7142),
       (7144, 7145), (7149, 7149), (7151, 7153), (7212, 7219), (7222, 7223), (7288, 7293),
       (7376, 7378), (7380, 7392), (7394, 7400), (7405, 7405), (7412, 7412), (7416, 7417),
       (7468, 7530), (7544, 7544), (7579, 7679), (8125, 8125), (8127, 8129), (8141, 8143),
       (8157, 8159), (8173, 8175), (8189, 8190), (8203, 8207), (8216, 8217), (8228, 8228),
       (8231, 8231), (8234, 8238), (8288, 8292), (8294, 8303), (8305, 8305), (8319, 8319),
       (8336, 8348), (8400, 8432), (11388, 11389), (11503, 11505), (11631, 11631),
       (11647, 11647), (11744, 11775), (11823, 11823), (12293, 12293), (12330, 12333),
       (12337, 12341), (12347, 12347), (12441, 12446), (12540, 12542), (40981, 40981),
       (42232, 42237), (42508, 42508), (42607, 42610), (42612, 42621), (42623, 42623),
       (42652, 42655), (42736, 42737), (42752, 42785), (42864, 42864), (42888, 42890),
       (42994, 42996), (43000, 43001), (43010, 43010), (43014, 43014), (43019, 43019),
       (43045, 43046), (43052, 43052), (43204, 43205), (43232, 43249), (43263, 43263),
       (43302, 43309), (43335, 43345), (43392, 43394), (43443, 43443), (43446, 43449),
       (43452, 43453), (43471, 43471), (43493, 43494), (43561, 43566), (43569, 43570),
       (43573, 43574), (43587, 43587), (43596, 43596), (43632, 43632), (43644, 43644),
       (43696, 43696), (43698, 43700), (43703, 43704), (43710, 43711), (43713, 43713),
       (43741, 43741), (43756, 43757), (43763, 43764), (43766, 43766), (43867, 43871),
       (43881, 43883), (44005, 44005), (44008, 44008), (44013, 44013), (64286, 64286),
       (64434, 64450), (65024, 65039), (65043, 65043), (65056, 65071), (65106, 65106),
       (65109, 65109), (65279, 65279), (65287, 65287), (65294, 65294), (65306, 65306),
       (65342, 65342), (65344, 65344), (65392, 65392), (65438, 65439), (65507, 65507),
       (65529, 65531), (66045, 66045), (66272, 66272), (66422, 66426), (67456, 67461),
       (67463, 67504), (67506, 67514), (68097, 68099), (68101, 68102), (68108, 68111),
       (68152, 68154), (68159, 68159), (68325, 68326), (68900, 68903), (69291, 69292),
       (69446, 69456), (69506, 69509), (69633, 69633), (69688, 69702), (69744, 69744),
       (69747, 69748), (69759, 69761), (69811, 69814), (69817, 69818), (69821, 69821),
       (69826, 69826), (69837, 69837), (69888, 69890), (69927, 69931), (69933, 69940),
       (70003, 70003), (70016, 70017), (70070, 70078), (70089, 70092), (70095, 70095),
       (70191, 70193), (70196, 70196), (70198, 70199), (70206, 70206), (70367, 70367),
       (70371, 70378), (70400, 70401), (70459, 70460), (70464, 70464), (70502, 70508),
       (70512, 70516), (70712, 70719), (70722, 70724), (70726, 70726), (70750, 70750),
       (70835, 70840), (70842, 70842), (70847, 70848), (70850, 70851), (71090, 71093),
       (71100, 71101), (71103, 71104), (71132, 71133), (71219, 71226), (71229, 71229),
       (71231, 71232), (71339, 71339), (71341, 71341), (71344, 71349), (71351, 71351),
       (71453, 71455), (71458, 71461), (71463, 71467), (71727, 71735), (71737, 71738),
       (71995, 71996), (71998, 71998), (72003, 72003), (72148, 72151), (72154, 72155),
       (72160, 72160), (72193, 72202), (72243, 72248), (72251, 72254), (72263, 72263),
       (72273, 72278), (72281, 72283), (72330, 72342), (72344, 72345), (72752, 72758),
       (72760, 72765), (72767, 72767), (72850, 72871), (72874, 72880), (72882, 72883),
       (72885, 72886), (73009, 73014), (73018, 73018), (73020, 73021), (73023, 73029),
       (73031, 73031), (73104, 73105), (73109, 73109), (73111, 73111), (73459, 73460),
       (78896, 78904), (92912, 92916), (92976, 92982), (92992, 92995), (94031, 94031),
       (94095, 94111), (94176, 94177), (94179, 94180), (110576, 110579), (110581, 110587),
       (110589, 110590), (113821, 113822), (113824, 113827), (118528, 118573),
       (118576, 118598), (119143, 119145), (119155, 119170), (119173, 119179),
       (119210, 119213), (119362, 119364), (121344, 121398), (121403, 121452),
       (121461, 121461), (121476, 121476), (121499, 121503), (121505, 121519),
       (122880, 122886), (122888, 122904), (122907, 122913), (122915, 122916),
       (122918, 122922), (123184, 123197), (123566, 123566), (123628, 123631),
       (125136, 125142), (125252, 125259), (127995, 127999), (917505, 917505),
       (917536, 917631), (917760, 917999)]"

definition lower_runs :: "(nat \<times> nat \<times> nat \<times> nat) list" where
  "lower_runs =
      [(192, 214, 1, 224), (216, 222, 1, 248), (256, 302, 2, 257), (306, 310, 2, 307),
       (313, 327, 2, 314), (330, 374, 2, 331), (376, 376, 1, 255), (377, 381, 2, 378),
       (385, 385, 1, 595), (386, 388, 2, 387), (390, 390, 1, 596), (391, 391, 1, 392),
       (393, 394, 1, 598), (395, 395, 1, 396), (398, 398, 1, 477), (399, 399, 1, 601),
       (400, 400, 1, 603), (401, 401, 1, 402), (403, 403, 1, 608), (404, 404, 1, 611),
       (406, 406, 1, 617), (407, 407, 1, 616), (408, 408, 1, 409), (412, 412, 1, 623),
       (413, 413, 1, 626), (415, 415, 1, 629), (416, 420, 2, 417), (422, 422, 1, 640),
       (423, 423, 1, 424), (425, 425, 1, 643), (428, 428, 1, 429), (430, 430, 1, 648),
       (431, 431, 1, 432), (433, 434, 1, 650), (435, 437, 2, 436), (439, 439, 1, 658),
       (440, 440, 1, 441), (444, 444, 1, 445), (452, 452, 1, 454), (453, 453, 1, 454),
       (455, 455, 1, 457), (456, 456, 1, 457), (458, 458, 1, 460), (459, 475, 2, 460),
       (478, 494, 2, 479), (497, 497, 1, 499), (498, 500, 2, 499), (502, 502, 1, 405),
       (503, 503, 1, 447), (504, 542, 2, 505), (544, 544, 1, 414), (546, 562, 2, 547),
       (570, 570, 1, 11365), (571, 571, 1, 572), (573, 573, 1, 410), (574, 574, 1, 11366),
       (577, 577, 1, 578), (579, 579, 1, 384), (580, 580, 1, 649), (581, 581, 1, 652),
       (582, 590, 2, 583), (880, 882, 2, 881), (886, 886, 1, 887), (895, 895, 1, 1011),
       (902, 902, 1, 940), (904, 906, 1, 941), (908, 908, 1, 972), (910, 911, 1, 973),
       (913, 929, 1, 945), (932, 939, 1, 964), (975, 975, 1, 983), (984, 1006, 2, 985),
       (1012, 1012, 1, 952), (1015, 1015, 1, 1016), (1017, 1017, 1, 1010),
       (1018, 1018, 1, 1019), (1021, 1023, 1, 891), (1024, 1039, 1, 1104),
       (1040, 1071, 1, 1072), (1120, 1152, 2, 1121), (1162, 1214, 2, 1163),
       (1216, 1216, 1, 1231), (1217, 1229, 2, 1218), (1232, 1326, 2, 1233),
       (1329, 1366, 1, 1377), (4256, 4293, 1, 11520), (4295, 4295, 1, 11559),
       (4301, 4301, 1, 11565), (5024, 5103, 1, 43888), (5104, 5109, 1, 5112),
       (7312, 7354, 1, 4304), (7357, 7359, 1, 4349), (7680, 7828, 2, 7681),
       (7838, 7838, 1, 223), (7840, 7934, 2, 7841), (7944, 7951, 1, 7936),
       (7960, 7965, 1, 7952), (7976, 7983, 1, 7968), (7992, 7999, 1, 7984),
       (8008, 8013, 1, 8000), (8025, 8031, 2, 8017), (8040, 8047, 1, 8032),
       (8072, 8079, 1, 8064), (8088, 8095, 1, 8080), (8104, 8111, 1, 8096),
       (8120, 8121, 1, 8112), (8122, 8123, 1, 8048), (8124, 8124, 1, 8115),
       (8136, 8139, 1, 8050), (8140, 8140, 1, 8131), (8152, 8153, 1, 8144),
       (8154, 8155, 1, 8054), (8168, 8169, 1, 8160), (8170, 8171, 1, 8058),
       (8172, 8172, 1, 8165), (8184, 8185, 1, 8056), (8186, 8187, 1, 8060),
       (8188, 8188, 1, 8179), (8486, 8486, 1, 969), (8490, 8490, 1, 107), (8491, 8491, 1, 229),
       (8498, 8498, 1, 8526), (8544, 8559, 1, 8560), (8579, 8579, 1, 8580),
       (9398, 9423, 1, 9424), (11264, 11311, 1, 11312), (11360, 11360, 1, 11361),
       (11362, 11362, 1, 619), (11363, 11363, 1, 7549), (11364, 11364, 1, 637),
       (11367, 11371, 2, 11368), (11373, 11373, 1, 593), (11374, 11374, 1, 625),
       (11375, 11375, 1, 592), (11376, 11376, 1, 594), (11378, 11378, 1, 11379),
       (11381, 11381, 1, 11382), (11390, 11391, 1, 575), (11392, 11490, 2, 11393),
       (11499, 11501, 2, 11500), (11506, 11506, 1, 11507), (42560, 42604, 2, 42561),
       (42624, 42650, 2, 42625), (42786, 42798, 2, 42787), (42802, 42862, 2, 42803),
       (42873, 42875, 2, 42874), (42877, 42877, 1, 7545), (42878, 42886, 2, 42879),
       (42891, 42891, 1, 42892), (42893, 42893, 1, 613), (42896, 42898, 2, 42897),
       (42902, 42920, 2, 42903), (42922, 42922, 1, 614), (42923, 42923, 1, 604),
       (42924, 42924, 1, 609), (42925, 42925, 1, 620), (42926, 42926, 1, 618),
       (42928, 42928, 1, 670), (42929, 42929, 1, 647), (42930, 42930, 1, 669),
       (42931, 42931, 1, 43859), (42932, 42946, 2, 42933), (42948, 42948, 1, 42900),
       (42949, 42949, 1, 642), (42950, 42950, 1, 7566), (42951, 42953, 2, 42952),
       (42960, 42960, 1, 42961), (42966, 42968, 2, 42967), (42997, 42997, 1, 42998),
       (65313, 65338, 1, 65345), (66560, 66599, 1, 66600), (66736, 66771, 1, 66776),
       (66928, 66938, 1, 66967), (66940, 66954, 1, 66979), (66956, 66962, 1, 66995),
       (66964, 66965, 1, 67003), (68736, 68786, 1, 68800), (71840, 71871, 1, 71872),
       (93760, 93791, 1, 93792), (125184, 125217, 1, 125218)]"

definition is_space :: "nat \<Rightarrow> bool" where
  \<comment> \<open>\<^verbatim>\<open>str.isspace\<close> of one character\<close>
  "is_space c = in_ranges c space_ranges"

definition is_alnum :: "nat \<Rightarrow> bool" where
  \<comment> \<open>\<^verbatim>\<open>str.isalnum\<close> of one character\<close>
  "is_alnum c =
     (if c < 128 then is_upper c \<or> is_lower c \<or> is_digit c else in_ranges c alnum_ranges)"

definition is_cased :: "nat \<Rightarrow> bool" where
  "is_cased c = in_ranges c cased_ranges"

definition is_case_ignorable :: "nat \<Rightarrow> bool" where
  "is_case_ignorable c = in_ranges c case_ignorable_ranges"

definition to_lower :: "nat \<Rightarrow> nat" where
  \<comment> \<open>the simple lower-case mapping of one character\<close>
  "to_lower c =
     (if c < 128 then (if is_upper c then c + 32 else c)
      else case find (\<lambda>(lo, hi, step, target). lo \<le> c \<and> c \<le> hi \<and> (c - lo) mod step = 0)
                     lower_runs of
             None \<Rightarrow> c
           | Some (lo, hi, step, target) \<Rightarrow> target + (c - lo))"

definition final_sigma :: "ustring \<Rightarrow> ustring \<Rightarrow> bool" where
  \<comment> \<open>a capital sigma stands at the end of a word: the characters before it (nearest
      first), skipping the case-ignorable ones, begin with a cased character, and the
      characters after it, skipping the case-ignorable ones, do not.\<close>
  "final_sigma before after =
     (case dropWhile is_case_ignorable before of
        [] \<Rightarrow> False
      | b # _ \<Rightarrow> is_cased b \<and>
          (case dropWhile is_case_ignorable after of [] \<Rightarrow> True | a # _ \<Rightarrow> \<not> is_cased a))"

definition lower_char :: "ustring \<Rightarrow> nat \<Rightarrow> ustring \<Rightarrow> ustring" where
  \<comment> \<open>the lower case of the character \<open>c\<close> between \<open>before\<close> (nearest first) and
      \<open>after\<close>: the capital sigma (931) becomes the final (962) or the medial (963) small
      sigma, the capital I with dot (304) an i and a combining dot, any other character
      its simple mapping.\<close>
  "lower_char before c after =
     (if c = 931 then [if final_sigma before after then 962 else 963]
      else if c = 304 then [105, 775]
      else [to_lower c])"

fun lower_from :: "ustring \<Rightarrow> ustring \<Rightarrow> ustring" where
  "lower_from before [] = []"
| "lower_from before (c # after) = lower_char before c after @ lower_from (c # before) after"

definition lower :: "ustring \<Rightarrow> ustring" where
  \<comment> \<open>\<^verbatim>\<open>s.lower()\<close>\<close>
  "lower s = lower_from [] s"

definition strip :: "ustring \<Rightarrow> ustring" where
  \<comment> \<open>\<^verbatim>\<open>s.strip()\<close>: leading and trailing whitespace removed.\<close>
  "strip s = rev (dropWhile is_space (rev (dropWhile is_space s)))"


section \<open>The regular expression of the e-mail search\<close>

text \<open>
  Lines 180 and 208 call
  \<^verbatim>\<open>re.findall(r'\b[A-Za-z0-9._%+-]+@[A-Za-z0-9.-]+\.[A-Z|a-z]{2,}\b', text)\<close>.
  The pattern is a sequence of word boundaries, one literal and greedy repetitions of
  character classes. A matcher maps a text and a start position to the list of end
  positions it can reach, in the order in which the backtracking engine tries them
  (a greedy repetition tries the longest run first); the head of that list is the match
  the engine reports.
\<close>

definition is_word :: "nat \<Rightarrow> bool" where
  \<comment> \<open>\<^verbatim>\<open>\w\<close> of a \<^verbatim>\<open>str\<close> pattern: alphanumeric, or the underscore\<close>
  "is_word c = (is_alnum c \<or> c = ord CHR ''_'')"

definition is_local :: "nat \<Rightarrow> bool" where
  \<comment> \<open>\<^verbatim>\<open>[A-Za-z0-9._%+-]\<close>\<close>
  "is_local c = (is_upper c \<or> is_lower c \<or> is_digit c \<or> c = ord CHR ''.'' \<or> c = ord CHR ''_''
                 \<or> c = ord CHR ''%'' \<or> c = ord CHR ''+'' \<or> c = ord CHR ''-'')"

definition is_domain :: "nat \<Rightarrow> bool" where
  \<comment> \<open>\<^verbatim>\<open>[A-Za-z0-9.-]\<close>\<close>
  "is_domain c = (is_upper c \<or> is_lower c \<or> is_digit c \<or> c = ord CHR ''.'' \<or> c = ord CHR ''-'')"

definition is_tld :: "nat \<Rightarrow> bool" where
  \<comment> \<open>\<^verbatim>\<open>[A-Z|a-z]\<close>: inside a class the bar is an ordinary character.\<close>
  "is_tld c = (is_upper c \<or> c = ord CHR ''|'' \<or> is_lower c)"

definition word_boundary :: "ustring \<Rightarrow> nat \<Rightarrow> bool" where
  \<comment> \<open>\<^verbatim>\<open>\b\<close> at position \<open>i\<close>: exactly one of the characters before and at \<open>i\<close> is a
      word character, the ends of the text counting as non-word.\<close>
  "word_boundary s i =
     ((0 < i \<and> i \<le> length s \<and> is_word (s ! (i - 1))) \<noteq> (i < length s \<and> is_word (s ! i)))"

type_synonym matcher = "ustring \<Rightarrow> nat \<Rightarrow> nat list"

definition boundary :: matcher where
  "boundary s i = (if word_boundary s i then [i] else [])"

definition lit :: "nat \<Rightarrow> matcher" where
  "lit c s i = (if i < length s \<and> s ! i = c then [Suc i] else [])"

definition rep_greedy :: "nat \<Rightarrow> (nat \<Rightarrow> bool) \<Rightarrow> matcher" where
  \<comment> \<open>\<^verbatim>\<open>[cls]{m,}\<close>: the run of class characters from \<open>i\<close>, longest first, never fewer
      than \<open>m\<close>.\<close>
  "rep_greedy m cls s i =
     (let n = length (takeWhile cls (drop i s)) in map (\<lambda>k. i + k) (rev [m..<Suc n]))"

definition seq :: "matcher \<Rightarrow> matcher \<Rightarrow> matcher" where
  "seq p q s i = concat (map (q s) (p s i))"

definition email_pattern :: matcher where
  "email_pattern =
     seq boundary
    (seq (rep_greedy 1 is_local)
    (seq (lit (ord CHR ''@''))
    (seq (rep_greedy 1 is_domain)
    (seq (lit (ord CHR ''.''))
    (seq (rep_greedy 2 is_tld)
         boundary)))))"

definition match_at :: "matcher \<Rightarrow> ustring \<Rightarrow> nat \<Rightarrow> nat option" where
  "match_at p s i = (case p s i of [] \<Rightarrow> None | e # _ \<Rightarrow> Some e)"

function re_findall_from :: "matcher \<Rightarrow> ustring \<Rightarrow> nat \<Rightarrow> ustring list" where
  "re_findall_from p s i =
     (if length s < i then []
      else case match_at p s i of
             None \<Rightarrow> re_findall_from p s (Suc i)
           | Some e \<Rightarrow> slice s i e # re_findall_from p s (if e \<le> i then Suc i else e))"
  by pat_completeness auto
termination
  by (relation "measure (\<lambda>(p, s, i). Suc (length s) - i)") auto

definition re_findall :: "matcher \<Rightarrow> ustring \<Rightarrow> ustring list" where
  \<comment> \<open>\<^verbatim>\<open>re.findall(pattern, s)\<close>: the non-overlapping matches, scanning left to right.\<close>
  "re_findall p s = re_findall_from p s 0"

definition email_matches :: "ustring \<Rightarrow> ustring list" where
  "email_matches s = re_findall email_pattern s"


section \<open>XML elements\<close>

text \<open>
  An \<^verbatim>\<open>xml.etree.ElementTree.Element\<close>, as far as the program reads it: its tag, its
  \<^verbatim>\<open>.text\<close> (\<open>None\<close> when there is none) and its children in document order.
\<close>

datatype element = Element (elem_tag: ustring) (elem_text: "ustring option") (elem_children: "element list")

fun iter :: "element \<Rightarrow> element list" where
  \<comment> \<open>the element and all its descendants, in document order\<close>
  "iter (Element t x cs) = Element t x cs # concat (map iter cs)"

definition et_findall :: "ustring \<Rightarrow> element \<Rightarrow> element list" where
  \<comment> \<open>\<^verbatim>\<open>e.findall('.//Tag')\<close>: every descendant of \<open>e\<close> with that tag.\<close>
  "et_findall t e = filter (\<lambda>d. elem_tag d = t) (concat (map iter (elem_children e)))"

definition et_find :: "ustring \<Rightarrow> element \<Rightarrow> element option" where
  \<comment> \<open>\<^verbatim>\<open>e.find('.//Tag')\<close>: the first such descendant, or \<open>None\<close>.\<close>
  "et_find t e = (case et_findall t e of [] \<Rightarrow> None | d # _ \<Rightarrow> Some d)"

definition truthy_text :: "element option \<Rightarrow> ustring option" where
  \<comment> \<open>\<^verbatim>\<open>x is not None and x.text\<close>: the text when the test succeeds.\<close>
  "truthy_text x =
     (case x of None \<Rightarrow> None
      | Some e \<Rightarrow> (case elem_text e of None \<Rightarrow> None
                   | Some s \<Rightarrow> if s = [] then None else Some s))"


section \<open>Rows and filters\<close>

record row =
  title :: ustring
  author :: ustring
  email :: ustring

record filters =
  only_with_emails :: bool
  only_known_authors :: bool
  enable_keyword_filter :: bool
  keywords_list :: "ustring list"
  author_filter :: ustring
  title_filter :: ustring
  email_domain_filter :: ustring

definition is_keyword_related :: "ustring \<Rightarrow> ustring \<Rightarrow> ustring list \<Rightarrow> bool" where
  "is_keyword_related ti abstract kws =
     (if kws = [] then True
      else let text_to_check = lower (ti @ ustr '' '' @ abstract)
           in list_ex (\<lambda>keyword. str_in (lower keyword) text_to_check) kws)"

definition emails_update :: "ustring list \<Rightarrow> ustring list \<Rightarrow> ustring list" where
  \<comment> \<open>\<^verbatim>\<open>emails.update(matches)\<close> on a Python set, kept as a duplicate-free list in order of
      first insertion. Python fixes no iteration order for a set; nothing below depends
      on the order chosen here except the order of one author's rows.\<close>
  "emails_update emails ms = foldl (\<lambda>acc m. if m \<in> set acc then acc else acc @ [m]) emails ms"

definition article_emails :: "element \<Rightarrow> ustring list" where
  \<comment> \<open>lines 176-181\<close>
  "article_emails article =
     foldl (\<lambda>acc aff. case truthy_text (Some aff) of
                         None \<Rightarrow> acc
                       | Some s \<Rightarrow> emails_update acc (email_matches s))
           [] (et_findall (ustr ''Affiliation'') article)"

definition extract_emails :: "ustring option \<Rightarrow> ustring list" where
  \<comment> \<open>lines 205-209: the set built from one affiliation text, \<open>None\<close> standing for an
      absent or empty text\<close>
  "extract_emails t =
     (case t of None \<Rightarrow> [] | Some s \<Rightarrow> emails_update [] (email_matches s))"

definition own_emails :: "element \<Rightarrow> ustring list" where
  \<comment> \<open>lines 205-209\<close>
  "own_emails a = extract_emails (truthy_text (et_find (ustr ''Affiliation'') a))"

definition resolve_emails :: "ustring list \<Rightarrow> ustring list \<Rightarrow> ustring list" where
  \<comment> \<open>lines 212-213\<close>
  "resolve_emails author_emails art_emails =
     (if author_emails = [] \<and> art_emails \<noteq> [] then art_emails else author_emails)"

definition is_unknown :: "element option \<Rightarrow> bool" where
  \<comment> \<open>line 191\<close>
  "is_unknown last_name =
     (case truthy_text last_name of None \<Rightarrow> True | Some l \<Rightarrow> strip l = [])"

definition author_name :: "element option \<Rightarrow> element option \<Rightarrow> ustring" where
  \<comment> \<open>lines 194-198\<close>
  "author_name last_name first_name =
     (case truthy_text last_name of
        None \<Rightarrow> ustr ''Unknown Author''
      | Some l \<Rightarrow>
          (case truthy_text first_name of
             None \<Rightarrow> strip l
           | Some f \<Rightarrow> if strip f \<noteq> [] then strip f @ ustr '' '' @ strip l else strip l))"

definition domain_ok :: "filters \<Rightarrow> ustring \<Rightarrow> bool" where
  \<comment> \<open>line 223, negated: the e-mail is not skipped\<close>
  "domain_ok f e =
     (\<not> (email_domain_filter f \<noteq> [] \<and> \<not> str_in (lower (email_domain_filter f)) (lower e)))"

definition emit_rows :: "filters \<Rightarrow> ustring \<Rightarrow> ustring \<Rightarrow> ustring list \<Rightarrow> row list" where
  \<comment> \<open>lines 216-236\<close>
  "emit_rows f ti name emails =
     (if only_with_emails f \<and> emails = [] then []
      else if emails \<noteq> [] then
        map (\<lambda>e. \<lparr>title = ti, author = name, email = e\<rparr>) (filter (domain_ok f) emails)
      else if \<not> only_with_emails f then
        [\<lparr>title = ti, author = name, email = ustr ''No email found''\<rparr>]
      else [])"

definition process_author :: "filters \<Rightarrow> ustring \<Rightarrow> ustring list \<Rightarrow> element \<Rightarrow> row list" where
  \<comment> \<open>lines 184-236, the body of the loop over the authors\<close>
  "process_author f ti art_emails a =
     (let last_name = et_find (ustr ''LastName'') a;
          first_name = et_find (ustr ''ForeName'') a
      in if only_known_authors f \<and> is_unknown last_name then []
         else let name = author_name last_name first_name
              in if author_filter f \<noteq> [] \<and> \<not> str_in (lower (author_filter f)) (lower name)
                 then []
                 else emit_rows f ti name (resolve_emails (own_emails a) art_emails))"

definition article_title :: "element \<Rightarrow> ustring" where
  \<comment> \<open>lines 157-158\<close>
  "article_title article =
     (case truthy_text (et_find (ustr ''ArticleTitle'') article) of None \<Rightarrow> ustr ''No title'' | Some s \<Rightarrow> s)"

definition article_abstract :: "element \<Rightarrow> ustring" where
  \<comment> \<open>lines 161-162\<close>
  "article_abstract article =
     (case truthy_text (et_find (ustr ''AbstractText'') article) of None \<Rightarrow> [] | Some s \<Rightarrow> s)"

definition process_article :: "filters \<Rightarrow> element \<Rightarrow> row list" where
  \<comment> \<open>lines 155-236, the body of the loop over the articles\<close>
  "process_article f article =
     (let ti = article_title article;
          abstract = article_abstract article
      in if enable_keyword_filter f \<and> \<not> is_keyword_related ti abstract (keywords_list f) then []
         else if title_filter f \<noteq> [] \<and> \<not> str_in (lower (title_filter f)) (lower ti) then []
         else let authors = et_findall (ustr ''Author'') article;
                  art_emails = article_emails article
              in concat (map (process_author f ti art_emails) authors))"

definition process_root :: "filters \<Rightarrow> element \<Rightarrow> row list" where
  "process_root f root = concat (map (process_article f) (et_findall (ustr ''PubmedArticle'') root))"


section \<open>Batches\<close>

text \<open>
  \<^verbatim>\<open>fetch_article_details\<close> walks the identifiers in batches of 20. For each batch the
  \<^verbatim>\<open>try\<close> block requests the records and parses the answer; either step may raise, and
  the handler turns the exception into a warning and goes on. The rest of the block
  reads strings and appends rows and does not raise, so a batch that fails has added no
  row. The remote service and the XML parser are a parameter \<open>efetch\<close>: given the batch
  number and the batch it returns the exception's message or the parsed root element.
\<close>

type_synonym efetch = "nat \<Rightarrow> ustring list \<Rightarrow> ustring + element"

datatype warning = Batch_Error nat ustring

record run =
  results :: "row list"
  warnings :: "warning list"

definition pmid_batch :: "ustring list \<Rightarrow> nat \<Rightarrow> ustring list" where
  \<comment> \<open>\<^verbatim>\<open>pmids[i:i+20]\<close>\<close>
  "pmid_batch pmids i = take 20 (drop i pmids)"

definition process_batch :: "efetch \<Rightarrow> filters \<Rightarrow> ustring list \<Rightarrow> nat \<Rightarrow> run \<Rightarrow> run" where
  \<comment> \<open>lines 137-242, the body of the loop over the batches\<close>
  "process_batch fetch f pmids i st =
     (let batch = pmid_batch pmids i;
          batch_num = i div 20 + 1
      in case fetch batch_num batch of
           Inl e \<Rightarrow> st\<lparr>warnings := warnings st @ [Batch_Error batch_num e]\<rparr>
         | Inr root \<Rightarrow> st\<lparr>results := results st @ process_root f root\<rparr>)"

function batch_loop :: "efetch \<Rightarrow> filters \<Rightarrow> ustring list \<Rightarrow> nat \<Rightarrow> run \<Rightarrow> run" where
  \<comment> \<open>\<^verbatim>\<open>for i in range(0, len(pmids), 20)\<close>, from \<open>i\<close> on\<close>
  "batch_loop fetch f pmids i st =
     (if i < length pmids
      then batch_loop fetch f pmids (i + 20) (process_batch fetch f pmids i st)
      else st)"
  by pat_completeness auto
termination
  by (relation "measure (\<lambda>(fetch, f, pmids, i, st). length pmids - i)") auto

declare batch_loop.simps [simp del]

definition fetch_article_details :: "efetch \<Rightarrow> ustring list \<Rightarrow> filters \<Rightarrow> run" where
  "fetch_article_details fetch pmids f =
     (if pmids = [] then \<lparr>results = [], warnings = []\<rparr>
      else batch_loop fetch f pmids 0 \<lparr>results = [], warnings = []\<rparr>)"


section \<open>Duplicates\<close>

definition or_empty :: "ustring \<Rightarrow> ustring" where
  \<comment> \<open>\<^verbatim>\<open>s or ''\<close> on a string\<close>
  "or_empty s = (if s = [] then [] else s)"

definition norm_key :: "row \<Rightarrow> ustring \<times> ustring \<times> ustring" where
  \<comment> \<open>lines 255-259\<close>
  "norm_key r =
     (lower (strip (or_empty (title r))),
      lower (strip (or_empty (author r))),
      lower (strip (or_empty (email r))))"

definition dedup_step :: "(ustring \<times> ustring \<times> ustring) set \<times> row list \<Rightarrow> row
                           \<Rightarrow> (ustring \<times> ustring \<times> ustring) set \<times> row list" where
  \<comment> \<open>lines 254-263, the body of the loop over the rows\<close>
  "dedup_step st r =
     (let key = norm_key r
      in if key \<notin> fst st then (insert key (fst st), snd st @ [r]) else st)"

definition remove_duplicates :: "row list \<Rightarrow> row list" where
  "remove_duplicates data = snd (foldl dedup_step ({}, []) data)"


section \<open>The e-mail shape in the specification's words\<close>

text \<open>
  The specification describes an address as one or more characters of the local class,
  an at-sign, one or more characters of the domain class, a dot and a final segment of
  two or more characters of a third class, between word boundaries. \<open>email_span tld s i j\<close>
  says that \<open>s[i:j]\<close> is such a stretch of \<open>s\<close>, with \<open>tld\<close> the class of the final
  segment; the specification takes the letters.
\<close>

definition is_letter :: "nat \<Rightarrow> bool" where
  "is_letter c = (is_upper c \<or> is_lower c)"

definition email_span :: "(nat \<Rightarrow> bool) \<Rightarrow> ustring \<Rightarrow> nat \<Rightarrow> nat \<Rightarrow> bool" where
  "email_span tld s i j =
     (j \<le> length s \<and> word_boundary s i \<and> word_boundary s j \<and>
      (\<exists>a\<in>{i<..<j}. \<exists>d\<in>{Suc a<..<j}.
          Suc (Suc d) < j \<and>
          (\<forall>k\<in>{i..<a}. is_local (s ! k)) \<and> s ! a = ord CHR ''@'' \<and>
          (\<forall>k\<in>{Suc a..<d}. is_domain (s ! k)) \<and> s ! d = ord CHR ''.'' \<and>
          (\<forall>k\<in>{Suc d..<j}. tld (s ! k))))"

definition spec_email_substrings :: "ustring \<Rightarrow> ustring set" where
  "spec_email_substrings s =
     {m. \<exists>i\<in>{0..length s}. \<exists>j\<in>{0..length s}. email_span is_letter s i j \<and> m = slice s i j}"

text \<open>
  \<open>email_parts\<close> names the positions of the at-sign and of the last dot of such a stretch.
  Where several stretches start at the same position, the search takes the one whose
  part before the last dot is longest and, of these, the longest (\<open>email_choice\<close>). The
  scan \<open>email_scan tld s p ms\<close> reads the text from position \<open>p\<close>: it goes to the first
  position at which a stretch starts, takes the stretch chosen there, and goes on behind
  it; \<open>ms\<close> are the stretches taken, in order.
\<close>

definition email_parts :: "(nat \<Rightarrow> bool) \<Rightarrow> ustring \<Rightarrow> nat \<Rightarrow> nat \<Rightarrow> nat \<Rightarrow> nat \<Rightarrow> bool" where
  "email_parts tld s i a d j =
     (j \<le> length s \<and> word_boundary s i \<and> word_boundary s j \<and>
      i < a \<and> Suc a < d \<and> Suc (Suc d) < j \<and>
      (\<forall>k\<in>{i..<a}. is_local (s ! k)) \<and> s ! a = ord CHR ''@'' \<and>
      (\<forall>k\<in>{Suc a..<d}. is_domain (s ! k)) \<and> s ! d = ord CHR ''.'' \<and>
      (\<forall>k\<in>{Suc d..<j}. tld (s ! k)))"

definition email_choice :: "(nat \<Rightarrow> bool) \<Rightarrow> ustring \<Rightarrow> nat \<Rightarrow> nat \<Rightarrow> bool" where
  "email_choice tld s i j =
     (\<exists>a d. email_parts tld s i a d j \<and>
        (\<forall>a' d' j'. email_parts tld s i a' d' j' \<longrightarrow> d' < d \<or> (d' = d \<and> j' \<le> j)))"

inductive email_scan :: "(nat \<Rightarrow> bool) \<Rightarrow> ustring \<Rightarrow> nat \<Rightarrow> ustring list \<Rightarrow> bool"
  for tld :: "nat \<Rightarrow> bool" and s :: ustring where
  scan_end: "(\<And>i j. p \<le> i \<Longrightarrow> \<not> email_span tld s i j) \<Longrightarrow> email_scan tld s p []"
| scan_match: "p \<le> i \<Longrightarrow> (\<And>i' j'. p \<le> i' \<Longrightarrow> i' < i \<Longrightarrow> \<not> email_span tld s i' j')
     \<Longrightarrow> email_choice tld s i j \<Longrightarrow> email_scan tld s j ms
     \<Longrightarrow> email_scan tld s p (slice s i j # ms)"


section \<open>Example records\<close>

definition no_filters :: filters where
  "no_filters =
     \<lparr>only_with_emails = False, only_known_authors = False, enable_keyword_filter = False,
      keywords_list = [], author_filter = [], title_filter = [], email_domain_filter = []\<rparr>"

definition sample_jane :: element where
  "sample_jane =
     Element (ustr ''Author'') None
       [Element (ustr ''LastName'') (Some (ustr ''Doe'')) [], Element (ustr ''ForeName'') (Some (ustr ''Jane'')) [],
        Element (ustr ''AffiliationInfo'') None
          [Element (ustr ''Affiliation'') (Some (ustr ''Dept X, jane.doe@uni.edu, jd@gmail.com'')) []]]"

definition sample_roe :: element where
  "sample_roe =
     Element (ustr ''Author'') None
       [Element (ustr ''LastName'') (Some (ustr ''Roe'')) [], Element (ustr ''ForeName'') (Some (ustr ''Rick'')) []]"

definition sample_kim :: element where
  "sample_kim =
     Element (ustr ''Author'') None
       [Element (ustr ''LastName'') (Some (ustr ''Kim'')) [],
        Element (ustr ''AffiliationInfo'') None
          [Element (ustr ''Affiliation'') (Some (ustr ''Lab Y (kim@lab.org)'')) []]]"

definition sample_article :: element where
  "sample_article =
     Element (ustr ''PubmedArticle'') None
       [Element (ustr ''MedlineCitation'') None
          [Element (ustr ''Article'') None
             [Element (ustr ''ArticleTitle'') (Some (ustr ''Food reward mechanisms'')) [],
              Element (ustr ''AuthorList'') None [sample_jane, sample_roe, sample_kim]]]]"

definition sample_pmids :: "ustring list" where
  "sample_pmids = replicate 20 (ustr ''a'') @ replicate 20 (ustr ''b'') @ [ustr ''c'']"

definition sample_fetch :: efetch where
  \<comment> \<open>the second request fails; any other answers with one article per identifier\<close>
  "sample_fetch batch_num batch =
     (if batch_num = 2 then Inl (ustr ''timed out'')
      else Inr (Element (ustr ''PubmedArticleSet'') None
             (map (\<lambda>pmid. Element (ustr ''PubmedArticle'') None
                     [Element (ustr ''ArticleTitle'') (Some pmid) [],
                      Element (ustr ''Author'') None [Element (ustr ''LastName'') (Some (ustr ''Doe'')) []]])
                  batch)))"


section \<open>The character database at work\<close>

text \<open>
  A word with an accented capital in lower case; a capital sigma at the end and at the
  start of a word; the capital I with dot; a no-break space and an em space are stripped,
  a zero-width space is not; a letter with diaeresis is a word character, so that no word
  boundary lies next to it, and the search finds nothing in an address whose local part
  holds one.
\<close>

lemma lower_examples:
  "lower [201, 99, 111, 108, 101] = [233, 99, 111, 108, 101]"
  "lower [913, 931] = [945, 962]"
  "lower [931, 913] = [963, 945]"
  "lower [304, 115] = [105, 775, 115]"
  by code_simp+

lemma strip_examples:
  "strip [160, 84, 8195] = [84]"
  "strip [8203, 84] = [8203, 84]"
  by code_simp+

lemma email_matches_umlaut:
  "email_matches [109, 252, 108, 108, 101, 114, 64, 117, 110, 105, 46, 100, 101] = []"
  by code_simp


section \<open>Properties of the e-mail search\<close>

lemma set_seq: "e \<in> set (seq p q s i) \<longleftrightarrow> (\<exists>j\<in>set (p s i). e \<in> set (q s j))"
  by (auto simp: seq_def)

lemma set_boundary: "e \<in> set (boundary s i) \<longleftrightarrow> (e = i \<and> word_boundary s i)"
  by (auto simp: boundary_def)

lemma set_lit: "e \<in> set (lit c s i) \<longleftrightarrow> (e = Suc i \<and> i < length s \<and> s ! i = c)"
  by (auto simp: lit_def)

lemma takeWhile_run:
  assumes k: "k < length (takeWhile cls (drop i s))"
  shows "cls (s ! (i + k))" and "i + k < length s"
proof -
  have le: "length (takeWhile cls (drop i s)) \<le> length (drop i s)"
    by (rule length_takeWhile_le)
  from k le show lt: "i + k < length s" by simp
  from k have "takeWhile cls (drop i s) ! k = drop i s ! k"
    by (rule takeWhile_nth)
  moreover from k have "cls (takeWhile cls (drop i s) ! k)"
    using nth_mem set_takeWhileD by metis
  ultimately show "cls (s ! (i + k))" using lt by simp
qed

lemma set_rep_greedy:
  "e \<in> set (rep_greedy m cls s i) \<longleftrightarrow>
     (i + m \<le> e \<and> e \<le> i + length (takeWhile cls (drop i s)))"
proof -
  have "e \<in> (\<lambda>k. i + k) ` {m..<Suc n} \<longleftrightarrow> (i + m \<le> e \<and> e \<le> i + n)" for n
  proof
    assume "e \<in> (\<lambda>k. i + k) ` {m..<Suc n}"
    then show "i + m \<le> e \<and> e \<le> i + n" by auto
  next
    assume a: "i + m \<le> e \<and> e \<le> i + n"
    then have "e - i \<in> {m..<Suc n}" and "e = i + (e - i)" by auto
    then show "e \<in> (\<lambda>k. i + k) ` {m..<Suc n}" by (rule_tac image_eqI)
  qed
  moreover have "set (rep_greedy m cls s i)
      = (\<lambda>k. i + k) ` {m..<Suc (length (takeWhile cls (drop i s)))}"
    unfolding rep_greedy_def Let_def set_map set_rev set_upt ..
  ultimately show ?thesis by blast
qed

lemma rep_greedy_sound:
  assumes "e \<in> set (rep_greedy m cls s i)" and "i \<le> length s"
  shows "i + m \<le> e" and "e \<le> length s" and "\<forall>k\<in>{i..<e}. cls (s ! k)"
proof -
  from assms have b: "i + m \<le> e" "e \<le> i + length (takeWhile cls (drop i s))"
    by (simp_all add: set_rep_greedy)
  show "i + m \<le> e" by fact
  have "length (takeWhile cls (drop i s)) \<le> length (drop i s)"
    by (rule length_takeWhile_le)
  with b assms(2) show "e \<le> length s" by simp
  show "\<forall>k\<in>{i..<e}. cls (s ! k)"
  proof
    fix k assume "k \<in> {i..<e}"
    with b have "k - i < length (takeWhile cls (drop i s))" "i + (k - i) = k" by auto
    with takeWhile_run(1) [of "k - i" cls i s] show "cls (s ! k)" by simp
  qed
qed

lemma word_boundary_le: "word_boundary s i \<Longrightarrow> i \<le> length s"
  by (auto simp: word_boundary_def)

lemma email_pattern_sound:
  assumes "e \<in> set (email_pattern s i)"
  shows "email_span is_tld s i e"
proof -
  from assms obtain i' where bi0: "i' \<in> set (boundary s i)"
    and r1: "e \<in> set (seq (rep_greedy 1 is_local) (seq (lit (ord CHR ''@'')) (seq (rep_greedy 1 is_domain)
               (seq (lit (ord CHR ''.'')) (seq (rep_greedy 2 is_tld) boundary)))) s i')"
    unfolding email_pattern_def set_seq [of e boundary] by blast
  from bi0 have bi: "word_boundary s i" and ii: "i' = i" by (simp_all add: set_boundary)
  from r1 obtain a0 where l: "a0 \<in> set (rep_greedy 1 is_local s i)"
    and r2: "e \<in> set (seq (lit (ord CHR ''@'')) (seq (rep_greedy 1 is_domain)
               (seq (lit (ord CHR ''.'')) (seq (rep_greedy 2 is_tld) boundary))) s a0)"
    unfolding ii set_seq [of e "rep_greedy 1 is_local"] by blast
  from r2 obtain a1 where at0: "a1 \<in> set (lit (ord CHR ''@'') s a0)"
    and r3: "e \<in> set (seq (rep_greedy 1 is_domain)
               (seq (lit (ord CHR ''.'')) (seq (rep_greedy 2 is_tld) boundary)) s a1)"
    unfolding set_seq [of e "lit (ord CHR ''@'')"] by blast
  from at0 have at: "a1 = Suc a0" "a0 < length s" "s ! a0 = ord CHR ''@''"
    by (simp_all add: set_lit)
  from r3 obtain d0 where dm: "d0 \<in> set (rep_greedy 1 is_domain s a1)"
    and r4: "e \<in> set (seq (lit (ord CHR ''.'')) (seq (rep_greedy 2 is_tld) boundary) s d0)"
    unfolding set_seq [of e "rep_greedy 1 is_domain"] by blast
  from r4 obtain d1 where dot0: "d1 \<in> set (lit (ord CHR ''.'') s d0)"
    and r5: "e \<in> set (seq (rep_greedy 2 is_tld) boundary s d1)"
    unfolding set_seq [of e "lit (ord CHR ''.'')"] by blast
  from dot0 have dot: "d1 = Suc d0" "d0 < length s" "s ! d0 = ord CHR ''.''"
    by (simp_all add: set_lit)
  from r5 obtain e' where t0: "e' \<in> set (rep_greedy 2 is_tld s d1)"
    and r6: "e \<in> set (boundary s e')"
    unfolding set_seq [of e "rep_greedy 2 is_tld"] by blast
  from r6 have be: "word_boundary s e" and "e = e'" by (simp_all add: set_boundary)
  with t0 have t: "e \<in> set (rep_greedy 2 is_tld s d1)" by simp
  from bi have il: "i \<le> length s" by (rule word_boundary_le)
  from rep_greedy_sound [OF l il] have L: "i + 1 \<le> a0" "\<forall>k\<in>{i..<a0}. is_local (s ! k)"
    by blast+
  from at have "a1 \<le> length s" by simp
  from rep_greedy_sound [OF dm this] have D: "a1 + 1 \<le> d0" "\<forall>k\<in>{a1..<d0}. is_domain (s ! k)"
    by blast+
  from dot have "d1 \<le> length s" by simp
  from rep_greedy_sound [OF t this] have T: "d1 + 2 \<le> e" "e \<le> length s" "\<forall>k\<in>{d1..<e}. is_tld (s ! k)"
    by blast+
  have "a0 \<in> {i<..<e}" using L(1) D(1) T(1) at(1) dot(1) by simp
  moreover have "d0 \<in> {Suc a0<..<e}" using D(1) T(1) at(1) dot(1) by simp
  moreover have "Suc (Suc d0) < e" using T(1) dot(1) by simp
  ultimately show ?thesis
    unfolding email_span_def using bi be T(2,3) L(2) D(2) at dot by blast
qed

lemma match_at_Some: "match_at p s i = Some e \<Longrightarrow> e \<in> set (p s i)"
  by (auto simp: match_at_def split: list.splits)

lemma re_findall_from_sound:
  "m \<in> set (re_findall_from p s i0) \<Longrightarrow>
     \<exists>i e. i0 \<le> i \<and> i \<le> length s \<and> match_at p s i = Some e \<and> m = slice s i e"
proof (induction p s i0 rule: re_findall_from.induct)
  case (1 p s i)
  show ?case
  proof (cases "length s < i")
    case True
    with "1.prems" show ?thesis by simp
  next
    case False
    show ?thesis
    proof (cases "match_at p s i")
      case None
      with False "1.prems" have "m \<in> set (re_findall_from p s (Suc i))" by simp
      from "1.IH"(1) [OF False None this]
      obtain i' e' where "Suc i \<le> i'" "i' \<le> length s"
        "match_at p s i' = Some e'" "m = slice s i' e'" by blast
      moreover from this(1) have "i \<le> i'" by simp
      ultimately show ?thesis by blast
    next
      case (Some e)
      with False "1.prems"
      have "m = slice s i e \<or> m \<in> set (re_findall_from p s (if e \<le> i then Suc i else e))"
        by simp
      then show ?thesis
      proof
        assume "m = slice s i e"
        with False Some show ?thesis by (intro exI [of _ i] exI [of _ e]) simp
      next
        assume "m \<in> set (re_findall_from p s (if e \<le> i then Suc i else e))"
        from "1.IH"(2) [OF False Some this]
        obtain i' e' where "(if e \<le> i then Suc i else e) \<le> i'" "i' \<le> length s"
          "match_at p s i' = Some e'" "m = slice s i' e'" by blast
        moreover from this(1) have "i \<le> i'" by (simp split: if_splits)
        ultimately show ?thesis by blast
      qed
    qed
  qed
qed

lemma set_emails_update: "set (emails_update acc ms) = set acc \<union> set ms"
proof -
  have "set (foldl (\<lambda>acc m. if m \<in> set acc then acc else acc @ [m]) acc ms) = set acc \<union> set ms"
    by (induction ms arbitrary: acc) auto
  then show ?thesis by (simp add: emails_update_def)
qed



text \<open>The bar of the last class is matched like a letter.\<close>

lemma email_matches_bar: "email_matches (ustr ''a@b.c|d'') = [ustr ''a@b.c|d'']"
  by code_simp
lemma nth_in_slice: "i \<le> k \<Longrightarrow> k < j \<Longrightarrow> j \<le> length s \<Longrightarrow> s ! k \<in> set (slice s i j)"
proof -
  assume a: "i \<le> k" "k < j" "j \<le> length s"
  then have "slice s i j ! (k - i) = s ! k" and "k - i < length (slice s i j)"
    by (simp_all add: slice_def)
  then show ?thesis by (metis nth_mem)
qed
lemma is_tld_letter: "is_tld c \<Longrightarrow> c \<noteq> ord CHR ''|'' \<Longrightarrow> is_letter c"
  by (auto simp: is_tld_def is_letter_def)
lemma email_span_mono:
  assumes sp: "email_span tld s i j"
    and imp: "\<And>k. k \<in> {i..<j} \<Longrightarrow> tld (s ! k) \<Longrightarrow> tld' (s ! k)"
  shows "email_span tld' s i j"
proof -
  from sp obtain a d where
    base: "j \<le> length s" "word_boundary s i" "word_boundary s j" and
    a: "a \<in> {i<..<j}" and d: "d \<in> {Suc a<..<j}" and
    rest: "Suc (Suc d) < j" "\<forall>k\<in>{i..<a}. is_local (s ! k)" "s ! a = ord CHR ''@''"
          "\<forall>k\<in>{Suc a..<d}. is_domain (s ! k)" "s ! d = ord CHR ''.''" and
    t: "\<forall>k\<in>{Suc d..<j}. tld (s ! k)"
    unfolding email_span_def by blast
  have "\<forall>k\<in>{Suc d..<j}. tld' (s ! k)"
  proof
    fix k assume k: "k \<in> {Suc d..<j}"
    with a d have "k \<in> {i..<j}" by simp
    moreover from t k have "tld (s ! k)" by blast
    ultimately show "tld' (s ! k)" by (rule imp)
  qed
  with base a d rest show ?thesis
    unfolding email_span_def by blast
qed

lemma email_matches_sound:
  assumes "m \<in> set (email_matches s)"
  shows "\<exists>i j. m = slice s i j \<and> email_span is_tld s i j"
proof -
  from assms have "m \<in> set (re_findall_from email_pattern s 0)"
    by (simp add: email_matches_def re_findall_def)
  from re_findall_from_sound [OF this]
  obtain i e where "match_at email_pattern s i = Some e" "m = slice s i e"
    by blast
  moreover from this(1) have "email_span is_tld s i e"
    by (intro email_pattern_sound match_at_Some)
  ultimately show ?thesis by blast
qed


text \<open>A stretch of the shape is matched where it starts, so a text that holds one yields a match.\<close>

lemma run_le_takeWhile:
  assumes "\<forall>k\<in>{i..<a}. cls (s ! k)" and "a \<le> length s"
  shows "a - i \<le> length (takeWhile cls (drop i s))"
proof -
  have split: "drop i s = take (a - i) (drop i s) @ drop (a - i) (drop i s)"
    by (rule append_take_drop_id [symmetric])
  have "\<forall>x\<in>set (take (a - i) (drop i s)). cls x"
  proof
    fix x assume "x \<in> set (take (a - i) (drop i s))"
    then obtain n where n: "n < length (take (a - i) (drop i s))"
      and x: "x = take (a - i) (drop i s) ! n"
      by (metis in_set_conv_nth)
    from n have "n < a - i" by simp
    with assms(2) x have "x = s ! (i + n)" by simp
    moreover from \<open>n < a - i\<close> have "i + n \<in> {i..<a}" by simp
    ultimately show "cls x" using assms(1) by blast
  qed
  then have "\<And>x. x \<in> set (take (a - i) (drop i s)) \<Longrightarrow> cls x"
    by blast
  then have "takeWhile cls (take (a - i) (drop i s) @ drop (a - i) (drop i s))
             = take (a - i) (drop i s) @ takeWhile cls (drop (a - i) (drop i s))"
    by (rule takeWhile_append2)
  with split have "length (takeWhile cls (drop i s))
      = length (take (a - i) (drop i s)) + length (takeWhile cls (drop (a - i) (drop i s)))"
    by (metis length_append)
  moreover from assms(2) have "length (take (a - i) (drop i s)) = a - i" by simp
  ultimately show ?thesis by simp
qed

lemma rep_greedy_complete:
  assumes "\<forall>k\<in>{i..<a}. cls (s ! k)" and "a \<le> length s" and "i + m \<le> a"
  shows "a \<in> set (rep_greedy m cls s i)"
proof -
  from run_le_takeWhile [OF assms(1,2)] assms(3)
  have "a \<le> i + length (takeWhile cls (drop i s))" by simp
  with assms(3) show ?thesis by (simp add: set_rep_greedy)
qed

lemma is_letter_tld: "is_letter c \<Longrightarrow> is_tld c"
  by (auto simp: is_letter_def is_tld_def)

lemma email_pattern_complete:
  assumes "email_span is_tld s i j"
  shows "j \<in> set (email_pattern s i)"
proof -
  from assms obtain a d where
    base: "j \<le> length s" "word_boundary s i" "word_boundary s j" and
    a: "a \<in> {i<..<j}" and d: "d \<in> {Suc a<..<j}" and
    rest: "Suc (Suc d) < j" "\<forall>k\<in>{i..<a}. is_local (s ! k)" "s ! a = ord CHR ''@''"
          "\<forall>k\<in>{Suc a..<d}. is_domain (s ! k)" "s ! d = ord CHR ''.''"
          "\<forall>k\<in>{Suc d..<j}. is_tld (s ! k)"
    unfolding email_span_def by blast
  from a d base(1) have bounds: "a \<le> length s" "a < length s" "d \<le> length s" "d < length s"
    by simp_all
  have 6: "j \<in> set (boundary s j)"
    using base(3) by (simp add: set_boundary)
  have 5: "j \<in> set (rep_greedy 2 is_tld s (Suc d))"
    using rest(6) base(1) rest(1) by (intro rep_greedy_complete) simp_all
  have 4: "Suc d \<in> set (lit (ord CHR ''.'') s d)"
    using rest(5) bounds(4) by (simp add: set_lit)
  have 3: "d \<in> set (rep_greedy 1 is_domain s (Suc a))"
    using rest(4) bounds(3) d by (intro rep_greedy_complete) simp_all
  have 2: "Suc a \<in> set (lit (ord CHR ''@'') s a)"
    using rest(3) bounds(2) by (simp add: set_lit)
  have 1: "a \<in> set (rep_greedy 1 is_local s i)"
    using rest(2) bounds(1) a by (intro rep_greedy_complete) simp_all
  have 0: "i \<in> set (boundary s i)"
    using base(2) by (simp add: set_boundary)
  have "j \<in> set (seq (rep_greedy 2 is_tld) boundary s (Suc d))"
    unfolding set_seq using 5 6 by blast
  with 4 have "j \<in> set (seq (lit (ord CHR ''.'')) (seq (rep_greedy 2 is_tld) boundary) s d)"
    unfolding set_seq [of j "lit (ord CHR ''.'')"] by blast
  with 3 have "j \<in> set (seq (rep_greedy 1 is_domain)
                 (seq (lit (ord CHR ''.'')) (seq (rep_greedy 2 is_tld) boundary)) s (Suc a))"
    unfolding set_seq [of j "rep_greedy 1 is_domain"] by blast
  with 2 have "j \<in> set (seq (lit (ord CHR ''@'')) (seq (rep_greedy 1 is_domain)
                 (seq (lit (ord CHR ''.'')) (seq (rep_greedy 2 is_tld) boundary))) s a)"
    unfolding set_seq [of j "lit (ord CHR ''@'')"] by blast
  with 1 have "j \<in> set (seq (rep_greedy 1 is_local) (seq (lit (ord CHR ''@'')) (seq (rep_greedy 1 is_domain)
                 (seq (lit (ord CHR ''.'')) (seq (rep_greedy 2 is_tld) boundary)))) s i)"
    unfolding set_seq [of j "rep_greedy 1 is_local"] by blast
  with 0 show ?thesis
    unfolding email_pattern_def set_seq [of j boundary] by blast
qed

lemma re_findall_from_nonempty:
  "i0 \<le> i \<Longrightarrow> i \<le> length s \<Longrightarrow> match_at p s i \<noteq> None \<Longrightarrow> re_findall_from p s i0 \<noteq> []"
proof (induction p s i0 rule: re_findall_from.induct)
  case (1 p s i0)
  from "1.prems" have le: "\<not> length s < i0" by simp
  show ?case
  proof (cases "match_at p s i0")
    case None
    with "1.prems" have "i0 \<noteq> i" by auto
    with "1.prems" have "Suc i0 \<le> i" by simp
    from "1.IH"(1) [OF le None this "1.prems"(2,3)] le None show ?thesis by simp
  next
    case (Some e)
    with le show ?thesis by simp
  qed
qed

lemma extract_emails_nonempty:
  assumes "spec_email_substrings s \<noteq> {}"
  shows "extract_emails (Some s) \<noteq> []"
proof -
  from assms obtain i j where i: "i \<le> length s" and sp: "email_span is_letter s i j"
    unfolding spec_email_substrings_def by auto
  from sp have "email_span is_tld s i j"
    by (rule email_span_mono) (rule is_letter_tld)
  then have "j \<in> set (email_pattern s i)" by (rule email_pattern_complete)
  then have "match_at email_pattern s i \<noteq> None"
    by (auto simp: match_at_def split: list.splits)
  with i have "re_findall_from email_pattern s 0 \<noteq> []"
    by (intro re_findall_from_nonempty [of 0 i]) simp_all
  then have "set (email_matches s) \<noteq> {}"
    by (simp add: email_matches_def re_findall_def)
  then have "set (extract_emails (Some s)) \<noteq> {}"
    by (simp add: extract_emails_def set_emails_update)
  then show ?thesis by auto
qed




lemma rep_greedy_descending:
  assumes "rep_greedy m cls s i = pre @ x # post"
  shows "\<forall>p\<in>set pre. x < p"
proof -
  have "sorted_wrt (\<lambda>x y. y < x) (rep_greedy m cls s i)"
    by (simp add: rep_greedy_def Let_def sorted_wrt_map sorted_wrt_rev del: upt_Suc)
  with assms show ?thesis
    by (simp add: sorted_wrt_append)
qed




























section \<open>Properties of the substring test\<close>

lemma str_in_iff: "str_in sub s \<longleftrightarrow> (\<exists>pre post. s = pre @ sub @ post)"
proof (induction s)
  case Nil
  show ?case by auto
next
  case (Cons c cs)
  have "take (length sub) (c # cs) = sub \<longleftrightarrow> (\<exists>post. c # cs = sub @ post)"
    by (metis append_eq_conv_conj append_take_drop_id)
  moreover have "(\<exists>pre post. c # cs = pre @ sub @ post)
      \<longleftrightarrow> (\<exists>post. c # cs = sub @ post) \<or> (\<exists>pre post. cs = pre @ sub @ post)"
  proof
    assume "\<exists>pre post. c # cs = pre @ sub @ post"
    then obtain pre post where e: "c # cs = pre @ sub @ post" by blast
    show "(\<exists>post. c # cs = sub @ post) \<or> (\<exists>pre post. cs = pre @ sub @ post)"
    proof (cases pre)
      case Nil
      with e show ?thesis by auto
    next
      case (Cons p ps)
      with e have "cs = ps @ sub @ post" by simp
      then show ?thesis by blast
    qed
  next
    assume "(\<exists>post. c # cs = sub @ post) \<or> (\<exists>pre post. cs = pre @ sub @ post)"
    then show "\<exists>pre post. c # cs = pre @ sub @ post"
    proof
      assume "\<exists>post. c # cs = sub @ post"
      then obtain post where "c # cs = [] @ sub @ post" by auto
      then show ?thesis by blast
    next
      assume "\<exists>pre post. cs = pre @ sub @ post"
      then obtain pre post where "c # cs = (c # pre) @ sub @ post" by auto
      then show ?thesis by blast
    qed
  qed
  ultimately show ?case using Cons.IH by simp
qed


section \<open>Author names\<close>

lemma author_name_cases:
  "author_name last_name first_name =
     (case truthy_text last_name of
        None \<Rightarrow> ustr ''Unknown Author''
      | Some l \<Rightarrow>
          (case truthy_text first_name of
             None \<Rightarrow> strip l
           | Some f \<Rightarrow> if strip f = [] then strip l else strip f @ ustr '' '' @ strip l))"
  by (simp add: author_name_def split: option.splits)

text \<open>
  Claim C1. The display name is first name, blank, last name (both trimmed) when both are
  present and non-blank, the trimmed last name alone when only the last name is, and
  \<open>Unknown Author\<close> whenever the last name is absent or blank. The test of line 195 asks
  only whether the last name's text is non-empty, where line 191 also asks whether it is
  non-blank: for a last name of blanks the name is the empty ustring, or the first name
  followed by a blank, and not \<open>Unknown Author\<close>.
\<close>

theorem author_name_blank_last_name:
  "author_name (Some (Element (ustr ''LastName'') (Some (ustr ''  '')) [])) None = []
   \<and> author_name (Some (Element (ustr ''LastName'') (Some (ustr ''  '')) []))
                  (Some (Element (ustr ''ForeName'') (Some (ustr ''Jane'')) [])) = ustr ''Jane ''
   \<and> is_unknown (Some (Element (ustr ''LastName'') (Some (ustr ''  '')) []))"
  by code_simp

text \<open>
  Claim C2. Every row has a non-empty author and an e-mail that is an address or the
  sentinel \<open>No email found\<close>. With the filter for known authors switched off, the author
  with a last name of blanks reaches the result with an empty author.
\<close>

theorem pipeline_empty_author:
  "remove_duplicates (results (fetch_article_details
      (\<lambda>batch_num batch. Inr (Element (ustr ''PubmedArticleSet'') None
         [Element (ustr ''PubmedArticle'') None
            [Element (ustr ''ArticleTitle'') (Some (ustr ''T'')) [],
             Element (ustr ''AuthorList'') None
               [Element (ustr ''Author'') None [Element (ustr ''LastName'') (Some (ustr ''  '')) []]]]]))
      [ustr ''1'']
      \<lparr>only_with_emails = False, only_known_authors = False, enable_keyword_filter = False,
       keywords_list = [], author_filter = [], title_filter = [], email_domain_filter = []\<rparr>))
   = [\<lparr>title = ustr ''T'', author = [], email = ustr ''No email found''\<rparr>]"
  by code_simp


section \<open>Affiliations and the fallback\<close>

lemma iter_eq: "iter e = e # concat (map iter (elem_children e))"
  by (cases e) simp

lemma iter_trans: "d \<in> set (iter e) \<Longrightarrow> set (iter d) \<subseteq> set (iter e)"
proof (induction e rule: iter.induct)
  case (1 t x cs)
  from "1.prems" have "d = Element t x cs \<or> (\<exists>c\<in>set cs. d \<in> set (iter c))"
    by auto
  then show ?case
  proof
    assume "d = Element t x cs"
    then show ?thesis by simp
  next
    assume "\<exists>c\<in>set cs. d \<in> set (iter c)"
    then obtain c where c: "c \<in> set cs" "d \<in> set (iter c)" by blast
    with "1.IH" have "set (iter d) \<subseteq> set (iter c)" by blast
    with c(1) show ?thesis by auto
  qed
qed

lemma et_findall_trans:
  assumes "a \<in> set (et_findall t1 e)"
  shows "set (et_findall t2 a) \<subseteq> set (et_findall t2 e)"
proof
  fix d assume "d \<in> set (et_findall t2 a)"
  then have tag: "elem_tag d = t2" and "d \<in> set (concat (map iter (elem_children a)))"
    by (simp_all add: et_findall_def)
  then have "d \<in> set (iter a)" by (subst iter_eq) simp
  moreover from assms obtain c where c: "c \<in> set (elem_children e)" "a \<in> set (iter c)"
    by (auto simp: et_findall_def)
  ultimately have "d \<in> set (iter c)" using iter_trans by blast
  with c(1) tag show "d \<in> set (et_findall t2 e)"
    by (auto simp: et_findall_def)
qed

lemma et_find_in_findall: "et_find t e = Some d \<Longrightarrow> d \<in> set (et_findall t e)"
  by (auto simp: et_find_def split: list.splits)

lemma set_article_emails:
  "set (article_emails article) =
     (\<Union>aff\<in>set (et_findall (ustr ''Affiliation'') article). set (extract_emails (truthy_text (Some aff))))"
proof -
  have "set (foldl (\<lambda>acc aff. case truthy_text (Some aff) of
                         None \<Rightarrow> acc
                       | Some s \<Rightarrow> emails_update acc (email_matches s)) acc affs)
        = set acc \<union> (\<Union>aff\<in>set affs. set (extract_emails (truthy_text (Some aff))))"
    for acc affs
    by (induction affs arbitrary: acc)
       (auto simp: set_emails_update extract_emails_def split: option.splits)
  then show ?thesis by (simp add: article_emails_def)
qed

lemma own_emails_subset:
  assumes "a \<in> set (et_findall (ustr ''Author'') article)"
  shows "set (own_emails a) \<subseteq> set (article_emails article)"
proof (cases "et_find (ustr ''Affiliation'') a")
  case None
  then show ?thesis by (simp add: own_emails_def truthy_text_def extract_emails_def)
next
  case (Some aff)
  then have "aff \<in> set (et_findall (ustr ''Affiliation'') a)" by (rule et_find_in_findall)
  with et_findall_trans [OF assms] have "aff \<in> set (et_findall (ustr ''Affiliation'') article)"
    by blast
  then have "set (extract_emails (truthy_text (Some aff))) \<subseteq> set (article_emails article)"
    unfolding set_article_emails by blast
  with Some show ?thesis by (simp add: own_emails_def)
qed

text \<open>
  Claim C10. The article-level e-mails are those of every \<open>Affiliation\<close> element below
  the article, the ones below its authors included: an author's own e-mails are among the
  article-level ones and, by the fallback, among the resolved e-mails of any author who
  has none of their own.
\<close>

theorem article_emails_cover_author_affiliations:
  "set (article_emails article) =
     (\<Union>aff\<in>set (et_findall (ustr ''Affiliation'') article). set (extract_emails (truthy_text (Some aff))))
   \<and> (a \<in> set (et_findall (ustr ''Author'') article)
        \<longrightarrow> set (et_findall (ustr ''Affiliation'') a) \<subseteq> set (et_findall (ustr ''Affiliation'') article)
          \<and> set (own_emails a) \<subseteq> set (article_emails article)
          \<and> (own_emails b = [] \<longrightarrow>
                set (own_emails a) \<subseteq> set (resolve_emails (own_emails b) (article_emails article))))"
proof -
  have "set (own_emails a) \<subseteq> set (resolve_emails (own_emails b) (article_emails article))"
    if "a \<in> set (et_findall (ustr ''Author'') article)" "own_emails b = []"
    using own_emails_subset [OF that(1)] that(2)
    by (auto simp: resolve_emails_def)
  then show ?thesis
    using set_article_emails [of article] own_emails_subset [of a article]
      et_findall_trans [of a "ustr ''Author''" article "ustr ''Affiliation''"]
    by blast
qed

theorem article_emails_cover_author_affiliations_witness:
  "sample_jane \<in> set (et_findall (ustr ''Author'') sample_article)
   \<and> own_emails sample_jane = [ustr ''jane.doe@uni.edu'', ustr ''jd@gmail.com'']
   \<and> own_emails sample_roe = []
   \<and> set (own_emails sample_jane) \<subseteq> set (article_emails sample_article)
   \<and> set (own_emails sample_jane)
       \<subseteq> set (resolve_emails (own_emails sample_roe) (article_emails sample_article))
   \<and> \<lparr>title = ustr ''Food reward mechanisms'', author = ustr ''Rick Roe'', email = ustr ''jane.doe@uni.edu''\<rparr>
       \<in> set (process_article no_filters sample_article)"
proof -
  have m: "sample_jane \<in> set (et_findall (ustr ''Author'') sample_article)"
    by code_simp
  have j: "own_emails sample_jane = [ustr ''jane.doe@uni.edu'', ustr ''jd@gmail.com'']"
    by code_simp
  have r: "own_emails sample_roe = []"
    by code_simp
  have p: "\<lparr>title = ustr ''Food reward mechanisms'', author = ustr ''Rick Roe'', email = ustr ''jane.doe@uni.edu''\<rparr>
       \<in> set (process_article no_filters sample_article)"
    by code_simp
  from article_emails_cover_author_affiliations [of sample_article sample_jane sample_roe] m r
  have "set (own_emails sample_jane) \<subseteq> set (article_emails sample_article)
        \<and> set (own_emails sample_jane)
           \<subseteq> set (resolve_emails (own_emails sample_roe) (article_emails sample_article))"
    by blast
  with m j r p show ?thesis by blast
qed

text \<open>
  Claim C4. An author without e-mails of their own, in an article with article-level
  e-mails, resolves to the article-level ones; an author with e-mails of their own
  resolves to these alone. The resolved e-mails are the ones the author's rows carry
  (shown here with every filter off but the one that drops authors without e-mail).
\<close>

theorem resolve_emails_fallback:
  "(own_emails a = [] \<and> article_emails article \<noteq> []
      \<longrightarrow> resolve_emails (own_emails a) (article_emails article) = article_emails article)
   \<and> (own_emails a \<noteq> []
      \<longrightarrow> resolve_emails (own_emails a) (article_emails article) = own_emails a)
   \<and> map email (process_author
         \<lparr>only_with_emails = True, only_known_authors = False, enable_keyword_filter = False,
          keywords_list = [], author_filter = [], title_filter = [], email_domain_filter = []\<rparr>
         ti (article_emails article) a)
       = resolve_emails (own_emails a) (article_emails article)"
  by (simp add: resolve_emails_def process_author_def emit_rows_def domain_ok_def Let_def comp_def)

theorem resolve_emails_fallback_witness:
  "own_emails sample_roe = []
   \<and> article_emails sample_article = [ustr ''jane.doe@uni.edu'', ustr ''jd@gmail.com'', ustr ''kim@lab.org'']
   \<and> resolve_emails (own_emails sample_roe) (article_emails sample_article)
       = [ustr ''jane.doe@uni.edu'', ustr ''jd@gmail.com'', ustr ''kim@lab.org'']
   \<and> own_emails sample_kim = [ustr ''kim@lab.org'']
   \<and> resolve_emails (own_emails sample_kim) (article_emails sample_article) = [ustr ''kim@lab.org'']"
proof -
  have r: "own_emails sample_roe = []"
    by code_simp
  have a: "article_emails sample_article = [ustr ''jane.doe@uni.edu'', ustr ''jd@gmail.com'', ustr ''kim@lab.org'']"
    by code_simp
  have k: "own_emails sample_kim = [ustr ''kim@lab.org'']"
    by code_simp
  from a have ne: "article_emails sample_article \<noteq> []" by simp
  from k have nk: "own_emails sample_kim \<noteq> []" by simp
  from resolve_emails_fallback [of sample_roe sample_article "ustr ''T''"] r ne
  have 1: "resolve_emails (own_emails sample_roe) (article_emails sample_article)
           = article_emails sample_article"
    by blast
  from resolve_emails_fallback [of sample_kim sample_article "ustr ''T''"] nk
  have 2: "resolve_emails (own_emails sample_kim) (article_emails sample_article)
           = own_emails sample_kim"
    by blast
  from r a k 1 2 show ?thesis by simp
qed


text \<open>
  The e-mail of a row is the sentinel or one of the article-level e-mails, hence a match of
  the pattern and never empty.
\<close>

lemma emit_rows_email:
  "r \<in> set (emit_rows f ti name emails) \<Longrightarrow> email r = ustr ''No email found'' \<or> email r \<in> set emails"
  by (auto simp: emit_rows_def split: if_splits)

lemma process_article_email:
  assumes "r \<in> set (process_article f article)"
  shows "email r = ustr ''No email found'' \<or> email r \<in> set (article_emails article)"
proof -
  from assms obtain a where a: "a \<in> set (et_findall (ustr ''Author'') article)"
    and r: "r \<in> set (process_author f (article_title article) (article_emails article) a)"
    by (auto simp: process_article_def Let_def split: if_splits)
  from r have "email r = ustr ''No email found''
      \<or> email r \<in> set (resolve_emails (own_emails a) (article_emails article))"
    by (auto simp: process_author_def Let_def split: if_splits dest: emit_rows_email)
  moreover have "set (resolve_emails (own_emails a) (article_emails article))
      \<subseteq> set (article_emails article)"
    using own_emails_subset [OF a] by (auto simp: resolve_emails_def)
  ultimately show ?thesis by blast
qed

lemma article_emails_shape:
  assumes "m \<in> set (article_emails article)"
  shows "\<exists>s i j. m = slice s i j \<and> email_span is_tld s i j"
proof -
  from assms obtain aff where "m \<in> set (extract_emails (truthy_text (Some aff)))"
    unfolding set_article_emails by blast
  then obtain s where "m \<in> set (email_matches s)"
    by (auto simp: extract_emails_def set_emails_update split: option.splits)
  from email_matches_sound [OF this] show ?thesis by blast
qed

lemma email_span_nonempty: "email_span tld s i j \<Longrightarrow> slice s i j \<noteq> []"
  by (auto simp: email_span_def slice_def)

lemma process_article_email_nonempty:
  assumes "r \<in> set (process_article f article)"
  shows "email r \<noteq> []"
proof -
  from process_article_email [OF assms] show ?thesis
  proof
    assume "email r = ustr ''No email found''"
    then show ?thesis by (simp add: ustr_def)
  next
    assume "email r \<in> set (article_emails article)"
    from article_emails_shape [OF this] obtain s i j
      where "email r = slice s i j" "email_span is_tld s i j" by blast
    then show ?thesis by (simp add: email_span_nonempty)
  qed
qed


section \<open>Filters\<close>

lemma domain_ok_nonempty:
  "email_domain_filter f \<noteq> [] \<Longrightarrow>
     domain_ok f = (\<lambda>e. str_in (lower (email_domain_filter f)) (lower e))"
  by (rule ext) (simp add: domain_ok_def)

lemma domain_ok_ignores_keywords:
  "domain_ok (f\<lparr>enable_keyword_filter := b, keywords_list := ks\<rparr>) = domain_ok f"
  by (rule ext) (simp add: domain_ok_def)

lemma process_author_ignores_keywords:
  "process_author (f\<lparr>enable_keyword_filter := b, keywords_list := ks\<rparr>) = process_author f"
  by (intro ext)
     (simp add: process_author_def emit_rows_def domain_ok_ignores_keywords Let_def)

text \<open>
  Claim C6. With a non-empty domain filter, the rows of an author are those of the
  resolved e-mails that contain the filter, case-insensitively, each e-mail being decided
  on its own; of two e-mails of which one contains the filter, only that one yields a row.
\<close>

theorem domain_filter_per_email:
  assumes "email_domain_filter f \<noteq> []" and "emails \<noteq> []"
  shows "emit_rows f ti name emails =
           map (\<lambda>e. \<lparr>title = ti, author = name, email = e\<rparr>)
             (filter (\<lambda>e. str_in (lower (email_domain_filter f)) (lower e)) emails)
         \<and> (str_in (lower (email_domain_filter f)) (lower e1)
            \<and> \<not> str_in (lower (email_domain_filter f)) (lower e2)
            \<longrightarrow> emit_rows f ti name [e1, e2] = [\<lparr>title = ti, author = name, email = e1\<rparr>]
              \<and> emit_rows f ti name [e2, e1] = [\<lparr>title = ti, author = name, email = e1\<rparr>])"
  using assms by (simp add: emit_rows_def domain_ok_nonempty)

theorem domain_filter_per_email_witness:
  "emit_rows (no_filters\<lparr>only_with_emails := True, email_domain_filter := ustr ''uni.edu''\<rparr>)
      (ustr ''T'') (ustr ''Jane Doe'') [ustr ''jane.doe@UNI.edu'', ustr ''jd@gmail.com'']
     = [\<lparr>title = ustr ''T'', author = ustr ''Jane Doe'', email = ustr ''jane.doe@UNI.edu''\<rparr>]
   \<and> process_article
        (no_filters\<lparr>only_with_emails := True, only_known_authors := True,
                    author_filter := ustr ''jane'', email_domain_filter := ustr ''UNI.EDU''\<rparr>)
        sample_article
     = [\<lparr>title = ustr ''Food reward mechanisms'', author = ustr ''Jane Doe'', email = ustr ''jane.doe@uni.edu''\<rparr>]"
proof -
  define f where "f = no_filters\<lparr>only_with_emails := True, email_domain_filter := ustr ''uni.edu''\<rparr>"
  have d: "email_domain_filter f \<noteq> []"
    unfolding f_def by (simp add: ustr_def)
  have ne: "[ustr ''jane.doe@UNI.edu'', ustr ''jd@gmail.com''] \<noteq> []"
    by simp
  have h: "str_in (lower (email_domain_filter f)) (lower (ustr ''jane.doe@UNI.edu''))
           \<and> \<not> str_in (lower (email_domain_filter f)) (lower (ustr ''jd@gmail.com''))"
    unfolding f_def by code_simp
  from domain_filter_per_email [OF d ne, of "ustr ''T''" "ustr ''Jane Doe''" "ustr ''jane.doe@UNI.edu''" "ustr ''jd@gmail.com''"] h
  have "emit_rows f (ustr ''T'') (ustr ''Jane Doe'') [ustr ''jane.doe@UNI.edu'', ustr ''jd@gmail.com'']
        = [\<lparr>title = ustr ''T'', author = ustr ''Jane Doe'', email = ustr ''jane.doe@UNI.edu''\<rparr>]"
    by blast
  moreover have "process_article
        (no_filters\<lparr>only_with_emails := True, only_known_authors := True,
                    author_filter := ustr ''jane'', email_domain_filter := ustr ''UNI.EDU''\<rparr>)
        sample_article
     = [\<lparr>title = ustr ''Food reward mechanisms'', author = ustr ''Jane Doe'', email = ustr ''jane.doe@uni.edu''\<rparr>]"
    by code_simp
  ultimately show ?thesis
    unfolding f_def by (rule conjI)
qed

text \<open>
  Claim C7, as amended. An empty keyword list passes every record, so that the switched-on
  keyword filter with no keywords lets through what the other filters let through. A
  non-empty list passes a record exactly when some keyword, in lower case, occurs in the
  lower-cased text made of the title, one blank and the abstract. The blank matters: a
  keyword can end the title and start the abstract only across it, and \<open>bc\<close> is not found
  in the title \<open>ab\<close> with the abstract \<open>cd\<close>.
\<close>

theorem keyword_filter_space_joined:
  "is_keyword_related ti abstract []
   \<and> (kws \<noteq> [] \<longrightarrow>
        is_keyword_related ti abstract kws
          = (\<exists>k\<in>set kws. str_in (lower k) (lower (ti @ ustr '' '' @ abstract))))
   \<and> process_article (f\<lparr>enable_keyword_filter := True, keywords_list := []\<rparr>) article
       = process_article (f\<lparr>enable_keyword_filter := False, keywords_list := []\<rparr>) article"
  by (simp add: is_keyword_related_def process_article_def process_author_ignores_keywords
        Let_def list_ex_iff)

theorem keyword_filter_space_joined_witness:
  "is_keyword_related (ustr ''Sugar and food'') (ustr ''Addiction in rats'') [ustr ''obesogenic'', ustr ''Food addiction'']
   \<and> \<not> is_keyword_related (ustr ''Sugar and food'') (ustr ''Addiction in rats'') [ustr ''obesogenic'', ustr ''foodaddiction'']
   \<and> is_keyword_related [201, 99, 111, 108, 101] [] [[233, 99, 111, 108, 101]]
   \<and> is_keyword_related (ustr ''Sugar and food'') (ustr ''Addiction in rats'') []
   \<and> process_article (no_filters\<lparr>enable_keyword_filter := True, keywords_list := []\<rparr>) sample_article
       = process_article (no_filters\<lparr>enable_keyword_filter := False, keywords_list := []\<rparr>) sample_article"
proof -
  define ti where "ti = ustr ''Sugar and food''"
  define ab where "ab = ustr ''Addiction in rats''"
  define k1 where "k1 = [ustr ''obesogenic'', ustr ''Food addiction'']"
  define k2 where "k2 = [ustr ''obesogenic'', ustr ''foodaddiction'']"
  define ti3 :: ustring where "ti3 = [201, 99, 111, 108, 101]"
  define k3 :: "ustring list" where "k3 = [[233, 99, 111, 108, 101]]"
  have k: "k1 \<noteq> []" "k2 \<noteq> []" "k3 \<noteq> []"
    unfolding k1_def k2_def k3_def by simp_all
  have e1: "\<exists>k\<in>set k1. str_in (lower k) (lower (ti @ ustr '' '' @ ab))"
    unfolding k1_def ti_def ab_def by code_simp
  have e2: "\<not> (\<exists>k\<in>set k2. str_in (lower k) (lower (ti @ ustr '' '' @ ab)))"
    unfolding k2_def ti_def ab_def by code_simp
  have e3: "\<exists>k\<in>set k3. str_in (lower k) (lower (ti3 @ ustr '' '' @ []))"
    unfolding k3_def ti3_def by code_simp
  note t1 = keyword_filter_space_joined [of ti ab k1 no_filters sample_article]
  note t2 = keyword_filter_space_joined [of ti ab k2 no_filters sample_article]
  note t3 = keyword_filter_space_joined [of ti3 "[]" k3 no_filters sample_article]
  from t1 k(1) e1 have 1: "is_keyword_related ti ab k1" by blast
  from t2 k(2) e2 have 2: "\<not> is_keyword_related ti ab k2" by blast
  from t3 k(3) e3 have 5: "is_keyword_related ti3 [] k3" by blast
  from t1 have 3: "is_keyword_related ti ab []" by blast
  from t1 have 4: "process_article (no_filters\<lparr>enable_keyword_filter := True, keywords_list := []\<rparr>) sample_article
       = process_article (no_filters\<lparr>enable_keyword_filter := False, keywords_list := []\<rparr>) sample_article"
    by blast
  from 1 2 5 3 4 show ?thesis
    unfolding ti_def ab_def k1_def k2_def ti3_def k3_def by (intro conjI)
qed

theorem keyword_filter_plain_concatenation_fails:
  "\<not> is_keyword_related (ustr ''ab'') (ustr ''cd'') [ustr ''bc'']
   \<and> str_in (lower (ustr ''bc'')) (lower (ustr ''ab'' @ ustr ''cd''))"
  by code_simp


section \<open>Properties of the batch loop\<close>

lemma batch_lt: "20 * k < (n::nat) \<Longrightarrow> k < (n + 19) div 20" by arith
lemma batch_ge: "\<not> 20 * k < (n::nat) \<Longrightarrow> (n + 19) div 20 \<le> k" by arith

lemma batch_loop_from:
  "i = 20 * k \<Longrightarrow>
   batch_loop fetch f pmids i st =
     st\<lparr>results := results st @ concat (map (\<lambda>k. case fetch (k + 1) (pmid_batch pmids (20 * k)) of
                                   Inl e \<Rightarrow> [] | Inr root \<Rightarrow> process_root f root)
                              [k..<(length pmids + 19) div 20]),
        warnings := warnings st @ concat (map (\<lambda>k. case fetch (k + 1) (pmid_batch pmids (20 * k)) of
                                   Inl e \<Rightarrow> [Batch_Error (k + 1) e] | Inr root \<Rightarrow> [])
                              [k..<(length pmids + 19) div 20])\<rparr>"
proof (induction fetch f pmids i st arbitrary: k rule: batch_loop.induct)
  case (1 fetch f pmids i st)
  let ?n = "(length pmids + 19) div 20"
  show ?case
  proof (cases "i < length pmids")
    case True
    with "1.prems" have lt: "k < ?n" by (simp add: batch_lt)
    then have upt: "[k..<?n] = k # [Suc k..<?n]" by (rule upt_conv_Cons)
    from "1.prems" have nxt: "i + 20 = 20 * Suc k" and num: "i div 20 + 1 = k + 1" by simp_all
    have step: "batch_loop fetch f pmids i st
                = batch_loop fetch f pmids (i + 20) (process_batch fetch f pmids i st)"
      using True by (subst batch_loop.simps) simp
    show ?thesis
      unfolding step "1.IH" [OF True nxt] upt
      using "1.prems"
      by (cases "fetch (k + 1) (pmid_batch pmids (20 * k))")
         (simp_all add: process_batch_def Let_def)
  next
    case False
    with "1.prems" have le: "?n \<le> k" by (simp add: batch_ge)
    from False have "batch_loop fetch f pmids i st = st"
      by (subst batch_loop.simps) simp
    with le show ?thesis by simp
  qed
qed

text \<open>
  Claim C9. A batch whose request or parse fails adds one warning and no row, and the run
  goes on: the result is the concatenation, in order, of the rows of the batches that
  succeeded, and the warnings name the batches that failed.
\<close>

theorem fetch_article_details_skips_failed_batches:
  "results (fetch_article_details fetch pmids f) =
     concat (map (\<lambda>k. case fetch (k + 1) (pmid_batch pmids (20 * k)) of
                         Inl e \<Rightarrow> [] | Inr root \<Rightarrow> process_root f root)
                 [0..<(length pmids + 19) div 20])
   \<and> warnings (fetch_article_details fetch pmids f) =
     concat (map (\<lambda>k. case fetch (k + 1) (pmid_batch pmids (20 * k)) of
                         Inl e \<Rightarrow> [Batch_Error (k + 1) e] | Inr root \<Rightarrow> [])
                 [0..<(length pmids + 19) div 20])"
proof (cases "pmids = []")
  case True
  then show ?thesis by (simp add: fetch_article_details_def)
next
  case False
  then have "fetch_article_details fetch pmids f
             = batch_loop fetch f pmids 0 \<lparr>results = [], warnings = []\<rparr>"
    by (simp add: fetch_article_details_def)
  then show ?thesis
    by (simp add: batch_loop_from [of 0 0])
qed

theorem fetch_article_details_skips_failed_batches_witness:
  "results (fetch_article_details sample_fetch sample_pmids no_filters)
     = replicate 20 \<lparr>title = ustr ''a'', author = ustr ''Doe'', email = ustr ''No email found''\<rparr>
       @ [\<lparr>title = ustr ''c'', author = ustr ''Doe'', email = ustr ''No email found''\<rparr>]
   \<and> warnings (fetch_article_details sample_fetch sample_pmids no_filters)
     = [Batch_Error 2 (ustr ''timed out'')]"
proof -
  note t = fetch_article_details_skips_failed_batches [of sample_fetch sample_pmids no_filters]
  have r: "concat (map (\<lambda>k. case sample_fetch (k + 1) (pmid_batch sample_pmids (20 * k)) of
                         Inl e \<Rightarrow> [] | Inr root \<Rightarrow> process_root no_filters root)
                 [0..<(length sample_pmids + 19) div 20])
           = replicate 20 \<lparr>title = ustr ''a'', author = ustr ''Doe'', email = ustr ''No email found''\<rparr>
             @ [\<lparr>title = ustr ''c'', author = ustr ''Doe'', email = ustr ''No email found''\<rparr>]"
    by code_simp
  have w: "concat (map (\<lambda>k. case sample_fetch (k + 1) (pmid_batch sample_pmids (20 * k)) of
                         Inl e \<Rightarrow> [Batch_Error (k + 1) e] | Inr root \<Rightarrow> [])
                 [0..<(length sample_pmids + 19) div 20])
           = [Batch_Error 2 (ustr ''timed out'')]"
    by code_simp
  from t have "results (fetch_article_details sample_fetch sample_pmids no_filters)
     = concat (map (\<lambda>k. case sample_fetch (k + 1) (pmid_batch sample_pmids (20 * k)) of
                         Inl e \<Rightarrow> [] | Inr root \<Rightarrow> process_root no_filters root)
                 [0..<(length sample_pmids + 19) div 20])"
    by (rule conjunct1)
  moreover from t have "warnings (fetch_article_details sample_fetch sample_pmids no_filters)
     = concat (map (\<lambda>k. case sample_fetch (k + 1) (pmid_batch sample_pmids (20 * k)) of
                         Inl e \<Rightarrow> [Batch_Error (k + 1) e] | Inr root \<Rightarrow> [])
                 [0..<(length sample_pmids + 19) div 20])"
    by (rule conjunct2)
  ultimately show ?thesis
    unfolding r w by (rule conjI)
qed


section \<open>Properties of the duplicate removal\<close>

lemma dedup_step_fst: "fst (dedup_step st r) = insert (norm_key r) (fst st)"
  by (auto simp: dedup_step_def Let_def)

lemma dedup_seen: "fst (foldl dedup_step st data) = fst st \<union> norm_key ` set data"
  by (induction data arbitrary: st) (auto simp: dedup_step_fst)

lemma remove_duplicates_Nil: "remove_duplicates [] = []"
  by (simp add: remove_duplicates_def)

text \<open>One more row at the end is kept exactly when its key is new.\<close>

lemma remove_duplicates_snoc:
  "remove_duplicates (xs @ [x]) =
     (if norm_key x \<in> norm_key ` set xs then remove_duplicates xs
      else remove_duplicates xs @ [x])"
proof -
  have "fst (foldl dedup_step ({}, []) xs) = norm_key ` set xs"
    by (simp add: dedup_seen)
  then show ?thesis
    by (simp add: remove_duplicates_def dedup_step_def Let_def)
qed

lemma keys_remove_duplicates: "norm_key ` set (remove_duplicates data) = norm_key ` set data"
  by (induction data rule: rev_induct) (auto simp: remove_duplicates_Nil remove_duplicates_snoc)

lemma distinct_keys_remove_duplicates: "distinct (map norm_key (remove_duplicates data))"
proof (induction data rule: rev_induct)
  case Nil
  show ?case by (simp add: remove_duplicates_Nil)
next
  case (snoc x xs)
  have "norm_key x \<notin> norm_key ` set xs \<Longrightarrow> norm_key x \<notin> norm_key ` set (remove_duplicates xs)"
    by (simp add: keys_remove_duplicates)
  with snoc show ?case
    by (simp add: remove_duplicates_snoc)
qed

lemma remove_duplicates_fixed: "distinct (map norm_key xs) \<Longrightarrow> remove_duplicates xs = xs"
  by (induction xs rule: rev_induct) (auto simp: remove_duplicates_Nil remove_duplicates_snoc)

lemma remove_duplicates_index:
  "remove_duplicates data =
     map (\<lambda>i. data ! i)
       (filter (\<lambda>i. norm_key (data ! i) \<notin> norm_key ` set (take i data)) [0..<length data])"
proof -
  define first :: "row list \<Rightarrow> nat \<Rightarrow> bool"
    where "first d i = (norm_key (d ! i) \<notin> norm_key ` set (take i d))" for d i
  have "remove_duplicates data = map (\<lambda>i. data ! i) (filter (first data) [0..<length data])"
  proof (induction data rule: rev_induct)
    case Nil
    show ?case by (simp add: remove_duplicates_Nil)
  next
    case (snoc x xs)
    have same: "\<And>i. i < length xs \<Longrightarrow> first (xs @ [x]) i = first xs i"
      by (simp add: first_def nth_append)
    have f: "filter (first (xs @ [x])) [0..<length xs] = filter (first xs) [0..<length xs]"
      by (rule filter_cong) (simp_all add: same)
    have m: "map (\<lambda>i. (xs @ [x]) ! i) (filter (first xs) [0..<length xs])
             = map (\<lambda>i. xs ! i) (filter (first xs) [0..<length xs])"
      by (rule map_cong) (simp_all add: nth_append)
    have last: "first (xs @ [x]) (length xs) = (norm_key x \<notin> norm_key ` set xs)"
      by (simp add: first_def)
    show ?case
      using snoc by (simp add: remove_duplicates_snoc f m last)
  qed
  then show ?thesis
    by (simp add: first_def [abs_def])
qed

text \<open>
  Claim C3. The Deduplicator returns the rows in their original order, keeping the row at
  index \<open>i\<close> exactly when its normalized key occurs in no earlier row; the key is the
  triple of the trimmed, lower-cased title, author and e-mail, and no key occurs twice in
  the output, so rows that differ only in case or in surrounding whitespace collapse to
  the first of them.
\<close>

theorem remove_duplicates_first_occurrence:
  "remove_duplicates data =
     map (\<lambda>i. data ! i)
       (filter (\<lambda>i. norm_key (data ! i) \<notin> norm_key ` set (take i data)) [0..<length data])
   \<and> distinct (map norm_key (remove_duplicates data))
   \<and> norm_key r = (lower (strip (title r)), lower (strip (author r)), lower (strip (email r)))"
proof -
  have "norm_key r = (lower (strip (title r)), lower (strip (author r)), lower (strip (email r)))"
    by (simp add: norm_key_def or_empty_def)
  then show ?thesis
    using remove_duplicates_index [of data] distinct_keys_remove_duplicates [of data]
    by blast
qed

theorem remove_duplicates_first_occurrence_witness:
  "remove_duplicates
     [\<lparr>title = ustr ''Title A'', author = ustr ''John Smith'', email = ustr ''j@x.com''\<rparr>,
      \<lparr>title = ustr '' title a  '', author = ustr ''JOHN SMITH'', email = ustr ''J@X.com ''\<rparr>,
      \<lparr>title = ustr ''Title A'', author = ustr ''Ann Lee'', email = ustr ''j@x.com''\<rparr>,
      \<lparr>title = [201, 99, 111, 108, 101], author = ustr ''Ann Lee'', email = ustr ''j@x.com''\<rparr>,
      \<lparr>title = [160, 233, 99, 111, 108, 101, 8195], author = ustr ''ann lee'', email = ustr ''j@x.com''\<rparr>]
   = [\<lparr>title = ustr ''Title A'', author = ustr ''John Smith'', email = ustr ''j@x.com''\<rparr>,
      \<lparr>title = ustr ''Title A'', author = ustr ''Ann Lee'', email = ustr ''j@x.com''\<rparr>,
      \<lparr>title = [201, 99, 111, 108, 101], author = ustr ''Ann Lee'', email = ustr ''j@x.com''\<rparr>]
   \<and> norm_key \<lparr>title = ustr '' title a  '', author = ustr ''JOHN SMITH'', email = ustr ''J@X.com ''\<rparr>
     = (ustr ''title a'', ustr ''john smith'', ustr ''j@x.com'')
   \<and> norm_key \<lparr>title = [160, 201, 99, 111, 108, 101, 8195], author = [], email = []\<rparr>
     = ([233, 99, 111, 108, 101], [], [])
   \<and> distinct (map norm_key (remove_duplicates
     [\<lparr>title = ustr ''Title A'', author = ustr ''John Smith'', email = ustr ''j@x.com''\<rparr>,
      \<lparr>title = ustr '' title a  '', author = ustr ''JOHN SMITH'', email = ustr ''J@X.com ''\<rparr>,
      \<lparr>title = ustr ''Title A'', author = ustr ''Ann Lee'', email = ustr ''j@x.com''\<rparr>,
      \<lparr>title = [201, 99, 111, 108, 101], author = ustr ''Ann Lee'', email = ustr ''j@x.com''\<rparr>,
      \<lparr>title = [160, 233, 99, 111, 108, 101, 8195], author = ustr ''ann lee'', email = ustr ''j@x.com''\<rparr>]))"
proof -
  define r1 where "r1 = \<lparr>title = ustr ''Title A'', author = ustr ''John Smith'', email = ustr ''j@x.com''\<rparr>"
  define r2 where "r2 = \<lparr>title = ustr '' title a  '', author = ustr ''JOHN SMITH'', email = ustr ''J@X.com ''\<rparr>"
  define r3 where "r3 = \<lparr>title = ustr ''Title A'', author = ustr ''Ann Lee'', email = ustr ''j@x.com''\<rparr>"
  define r4 where "r4 = \<lparr>title = [201, 99, 111, 108, 101], author = ustr ''Ann Lee'', email = ustr ''j@x.com''\<rparr>"
  define r5 where "r5 = \<lparr>title = [160, 233, 99, 111, 108, 101, 8195], author = ustr ''ann lee'', email = ustr ''j@x.com''\<rparr>"
  define r6 where "r6 = \<lparr>title = [160, 201, 99, 111, 108, 101, 8195], author = [], email = []\<rparr>"
  have k: "norm_key r2 = (ustr ''title a'', ustr ''john smith'', ustr ''j@x.com'')"
    unfolding r2_def by code_simp
  note t = remove_duplicates_first_occurrence [of "[r1, r2, r3, r4, r5]" r6]
  have "(lower (strip (title r6)), lower (strip (author r6)), lower (strip (email r6)))
        = ([233, 99, 111, 108, 101], [], [])"
    unfolding r6_def by code_simp
  with t have k6: "norm_key r6 = ([233, 99, 111, 108, 101], [], [])"
    by simp
  have e: "remove_duplicates [r1, r2, r3, r4, r5] = [r1, r3, r4]"
    unfolding r1_def r2_def r3_def r4_def r5_def by code_simp
  from t have d: "distinct (map norm_key (remove_duplicates [r1, r2, r3, r4, r5]))"
    by blast
  from e k k6 d show ?thesis
    unfolding r1_def r2_def r3_def r4_def r5_def r6_def by (intro conjI)
qed

text \<open>
  Claim C8. The Deduplicator is idempotent: run on its own output it returns that output
  unchanged, so the second run removes no row (the difference of the lengths is zero).
\<close>

theorem remove_duplicates_idempotent:
  "remove_duplicates (remove_duplicates data) = remove_duplicates data
   \<and> int (length (remove_duplicates data))
       - int (length (remove_duplicates (remove_duplicates data))) = 0"
  by (simp add: remove_duplicates_fixed distinct_keys_remove_duplicates)

theorem remove_duplicates_idempotent_witness:
  "remove_duplicates (remove_duplicates
     [\<lparr>title = ustr ''Title A'', author = ustr ''John Smith'', email = ustr ''j@x.com''\<rparr>,
      \<lparr>title = ustr ''Title A'', author = ustr ''John Smith'', email = ustr ''j@x.com''\<rparr>])
   = [\<lparr>title = ustr ''Title A'', author = ustr ''John Smith'', email = ustr ''j@x.com''\<rparr>]"
proof -
  define r where "r = \<lparr>title = ustr ''Title A'', author = ustr ''John Smith'', email = ustr ''j@x.com''\<rparr>"
  have "remove_duplicates [r, r] = [r]"
    unfolding r_def by code_simp
  with remove_duplicates_idempotent [of "[r, r]"]
  have "remove_duplicates (remove_duplicates [r, r]) = [r]"
    by simp
  then show ?thesis
    unfolding r_def .
qed

end
